theory Spec2Isabelle
  imports Complex_Main
begin

section \<open>Presence and anti-peeking detection\<close>

text \<open>
  A shallow embedding of \<^verbatim>\<open>PresenceAntiPeekingAlgo\<close> from
  \<^verbatim>\<open>src/Touchdesigner/presence_detection.py\<close>.

  Numbers: a finite float64 is a real number, and numpy's comparison and maximum of finite
  values are those of the reals. What float64 adds is the rounding of every literal and of
  every result. The embedding takes that rounding as a parameter (\<open>rnd\<close> below), applied where
  the code rounds, so what is proved for every rounding holds for float64 arithmetic as well
  as for exact arithmetic. Infinities and NaN have no counterpart: the embedding describes the
  calls in which no operation overflows, and the division by a \<^verbatim>\<open>num_chirps_per_frame\<close> of
  zero (numpy yields inf or nan there, without raising) leaves the values unknown, so
  statements about the values of the averages assume a chirp count other than zero.

  Effects: the object's attributes are a record that every operation takes and returns. An
  exception is a value \<open>Inl e\<close>; since a Python exception does not undo the assignments made
  before it, the per-frame update returns the state it has reached together with the error.
\<close>

subsection \<open>Errors and arrays\<close>

datatype error =
    ValueError
  | AttributeError
  | OverflowError
  | InvalidConfiguration
  | InvalidFrameShape
  | SpectralTransformFailure

text \<open>
  The first three are the Python exceptions the class can meet (numpy's shape and
  empty-reduction errors, a missing attribute, an integer too large for a float). The last three
  are the names the specification gives; the class raises none of them itself, they can only
  come out of a library function passed in.
\<close>

text \<open>
  The arithmetic: \<open>rnd\<close> takes the exact value of a literal or of a result to the float64 that
  stands for it, and \<open>cabs\<close> is \<^verbatim>\<open>abs\<close> on a complex128; \<open>div0\<close> is explained at the division.
  For exact arithmetic \<open>rnd\<close> changes nothing and \<open>cabs\<close> is the modulus.
\<close>

record arith =
  rnd :: "real \<Rightarrow> real"
  cabs :: "complex \<Rightarrow> real"
  div0 :: "real \<Rightarrow> real"

definition exact :: arith where
  "exact = \<lparr>rnd = (\<lambda>x. x), cabs = cmod, div0 = (\<lambda>x. 0)\<rparr>"

definition fadd :: "arith \<Rightarrow> real \<Rightarrow> real \<Rightarrow> real" where
  "fadd ar x y = rnd ar (x + y)"

definition fsub :: "arith \<Rightarrow> real \<Rightarrow> real \<Rightarrow> real" where
  "fsub ar x y = rnd ar (x - y)"

definition fmul :: "arith \<Rightarrow> real \<Rightarrow> real \<Rightarrow> real" where
  "fmul ar x y = rnd ar (x * y)"

definition fdiv :: "arith \<Rightarrow> real \<Rightarrow> real \<Rightarrow> real" where
  "fdiv ar x y = rnd ar (x / y)"

text \<open>A two-dimensional numpy array: its column count and its rows (each of that length).\<close>

record 'a array2 =
  ncols :: nat
  rows :: "'a list list"

text \<open>\<^verbatim>\<open>abs(a)\<close> on a complex array.\<close>

definition abs_array2 :: "arith \<Rightarrow> complex array2 \<Rightarrow> real array2" where
  "abs_array2 ar a = \<lparr>ncols = ncols a, rows = map (map (cabs ar)) (rows a)\<rparr>"

text \<open>
  \<^verbatim>\<open>a.sum(axis=0)\<close>: the sum of every column, the rows added one after the other from the first;
  an array without rows gives zeros.
\<close>

definition sum_axis0 :: "arith \<Rightarrow> real array2 \<Rightarrow> real list" where
  "sum_axis0 ar a =
     (case rows a of
        [] \<Rightarrow> replicate (ncols a) 0
      | r # rs \<Rightarrow> foldl (\<lambda>acc x. map2 (fadd ar) acc x) r rs)"

text \<open>
  \<^verbatim>\<open>np.divide(v, k)\<close> with a Python integer \<open>k\<close>, which is first made a float: an integer that
  rounds to a magnitude beyond the largest float64 raises \<^verbatim>\<open>OverflowError\<close>. For \<open>k = 0\<close>
  numpy divides by zero and yields inf or nan in every bin, without raising. The reals have no
  such values: \<open>div0\<close> of the arithmetic stands for them, and nothing is known of it.
\<close>

definition np_divide :: "arith \<Rightarrow> real list \<Rightarrow> int \<Rightarrow> error + real list" where
  "np_divide ar v k =
     (if 2 ^ 1024 - 2 ^ 970 \<le> \<bar>k\<bar> then Inl OverflowError
      else if k = 0 then Inr (map (div0 ar) v)
      else Inr (map (\<lambda>x. fdiv ar x (rnd ar (real_of_int k))) v))"

text \<open>\<^verbatim>\<open>v * c\<close> with a scalar \<open>c\<close>.\<close>

definition scale :: "arith \<Rightarrow> real list \<Rightarrow> real \<Rightarrow> real list" where
  "scale ar v c = map (\<lambda>x. fmul ar x c) v"

text \<open>
  An element-wise operation on two one-dimensional arrays, with numpy's broadcasting: equal
  lengths pair up, a length-one array is stretched, anything else raises \<^verbatim>\<open>ValueError\<close>.
\<close>

definition np_binop :: "(real \<Rightarrow> real \<Rightarrow> real) \<Rightarrow> real list \<Rightarrow> real list \<Rightarrow> error + real list" where
  "np_binop f xs ys =
     (if length xs = length ys then Inr (map2 f xs ys)
      else if length xs = 1 then Inr (map (f (hd xs)) ys)
      else if length ys = 1 then Inr (map (\<lambda>x. f x (hd ys)) xs)
      else Inl ValueError)"

definition np_add :: "arith \<Rightarrow> real list \<Rightarrow> real list \<Rightarrow> error + real list" where
  "np_add ar = np_binop (fadd ar)"

definition np_sub :: "arith \<Rightarrow> real list \<Rightarrow> real list \<Rightarrow> error + real list" where
  "np_sub ar = np_binop (fsub ar)"

text \<open>Python's slice \<^verbatim>\<open>v[a:b]\<close>: negative bounds count from the end, all bounds are clipped.\<close>

definition slice_bound :: "int \<Rightarrow> nat \<Rightarrow> nat" where
  "slice_bound i n = (if i < 0 then nat (max (i + int n) 0) else min (nat i) n)"

definition py_slice :: "'a list \<Rightarrow> int \<Rightarrow> int \<Rightarrow> 'a list" where
  "py_slice v a b =
     (let s = slice_bound a (length v); e = slice_bound b (length v)
      in take (e - s) (drop s v))"

text \<open>\<^verbatim>\<open>np.max(v)\<close>: raises \<^verbatim>\<open>ValueError\<close> on an empty array.\<close>

fun np_max :: "real list \<Rightarrow> error + real" where
  "np_max [] = Inl ValueError"
| "np_max (x # xs) = Inr (fold max xs x)"

subsection \<open>The detector's attributes\<close>

text \<open>
  The three averages are attributes that do not exist until the first frame has been seen:
  \<open>None\<close> is the missing attribute.
\<close>

record detector =
  num_samples_per_chirp :: int
  num_chirps_per_frame :: int
  detect_start_sample :: int
  detect_end_sample :: int
  peek_start_sample :: int
  peek_end_sample :: int
  threshold_presence :: real
  threshold_peeking :: real
  alpha_slow :: real
  alpha_med :: real
  alpha_fast :: real
  presence_status :: bool
  peeking_status :: bool
  first_run :: bool
  range_window :: "real list"
  slow_avg :: "real list option"
  fast_avg :: "real list option"
  slow_peek_avg :: "real list option"

subsection \<open>Library functions the class calls\<close>

text \<open>
  \<^verbatim>\<open>signal.blackmanharris(n).reshape(1, n)\<close> and its fallback
  \<^verbatim>\<open>signal.windows.blackmanharris(n).reshape(1, n)\<close> are scipy and numpy calls, and
  \<^verbatim>\<open>helpers.fft_spectrum\<close> is not among the sources: the class is embedded over any such
  functions, which are parameters. The one-row window matrix is kept as its row.
\<close>

type_synonym window_fn = "int \<Rightarrow> error + real list"

type_synonym fft_helper = "real array2 \<Rightarrow> real list \<Rightarrow> error + complex array2"

subsection \<open>Construction\<close>

text \<open>
  \<^verbatim>\<open>__init__\<close>, lines 13 to 49. Lines 23 to 42 assign the attributes and line 47 (or 49) the
  window: \<open>new_detector\<close> is the object with all of them; the five literals are floats. The
  window is computed by a library call that may raise; only an \<^verbatim>\<open>AttributeError\<close> of the first
  call is caught and answered by the second call, any other exception leaves \<^verbatim>\<open>__init__\<close> and
  no object is returned.
\<close>

definition new_detector :: "arith \<Rightarrow> int \<Rightarrow> int \<Rightarrow> real list \<Rightarrow> detector" where
  "new_detector ar n c w =
     \<lparr>num_samples_per_chirp = n,
      num_chirps_per_frame = c,
      detect_start_sample = n div 8,
      detect_end_sample = n div 2,
      peek_start_sample = n div 2,
      peek_end_sample = n,
      threshold_presence = rnd ar (7 / 10000),
      threshold_peeking = rnd ar (6 / 10000),
      alpha_slow = rnd ar (1 / 1000),
      alpha_med = rnd ar (5 / 100),
      alpha_fast = rnd ar (6 / 10),
      presence_status = False,
      peeking_status = False,
      first_run = True,
      range_window = w,
      slow_avg = None,
      fast_avg = None,
      slow_peek_avg = None\<rparr>"

definition PresenceAntiPeekingAlgo_init ::
    "arith \<Rightarrow> window_fn \<Rightarrow> window_fn \<Rightarrow> int \<Rightarrow> int \<Rightarrow> error + detector" where
  "PresenceAntiPeekingAlgo_init ar blackmanharris windows_blackmanharris n c =
     (case (case blackmanharris n of
              Inl AttributeError \<Rightarrow> windows_blackmanharris n
            | r \<Rightarrow> r) of
        Inl e \<Rightarrow> Inl e
      | Inr w \<Rightarrow> Inr (new_detector ar n c w))"

subsection \<open>The per-frame update\<close>

text \<open>
  Lines 68 and 69: the magnitudes, summed over the chirps and divided by the chirp count.
\<close>

definition fft_norm_of :: "arith \<Rightarrow> detector \<Rightarrow> complex array2 \<Rightarrow> error + real list" where
  "fft_norm_of ar d range_fft =
     np_divide ar (sum_axis0 ar (abs_array2 ar range_fft)) (num_chirps_per_frame d)"

text \<open>Lines 72 to 76: the first frame initialises the three averages.\<close>

definition initialize_averages :: "detector \<Rightarrow> real list \<Rightarrow> detector" where
  "initialize_averages d fft_norm =
     (if first_run d
      then d\<lparr>slow_avg := Some fft_norm, fast_avg := Some fft_norm,
             slow_peek_avg := Some fft_norm, first_run := False\<rparr>
      else d)"

text \<open>
  The expression \<^verbatim>\<open>avg * (1 - alpha) + fft_norm * alpha\<close> of lines 83, 84 and 95; reading an
  average that was never assigned raises \<^verbatim>\<open>AttributeError\<close>.
\<close>

definition ema :: "arith \<Rightarrow> real list option \<Rightarrow> real list \<Rightarrow> real \<Rightarrow> error + real list" where
  "ema ar avg fft_norm alpha =
     (case avg of
        None \<Rightarrow> Inl AttributeError
      | Some v \<Rightarrow> np_add ar (scale ar v (fsub ar 1 alpha)) (scale ar fft_norm alpha))"

text \<open>
  The expression \<^verbatim>\<open>np.max((fast - slow)[a:b])\<close> of lines 85 to 87 and 96 to 98, before the
  comparison with the threshold.
\<close>

definition window_max ::
    "arith \<Rightarrow> real list option \<Rightarrow> real list option \<Rightarrow> int \<Rightarrow> int \<Rightarrow> error + real" where
  "window_max ar fast slow a b =
     (case (fast, slow) of
        (Some f, Some s) \<Rightarrow>
          (case np_sub ar f s of
             Inl e \<Rightarrow> Inl e
           | Inr data \<Rightarrow> np_max (py_slice data a b))
      | _ \<Rightarrow> Inl AttributeError)"

text \<open>
  Lines 78 to 87. Each assignment is a state of its own, so that an exception in a later line
  returns what the earlier lines have stored.
\<close>

definition presence_sensing :: "arith \<Rightarrow> detector \<Rightarrow> real list \<Rightarrow> detector \<times> (error + unit)" where
  "presence_sensing ar d fft_norm =
     (let alpha_used = (if \<not> presence_status d then alpha_med d else alpha_slow d)
      in (case ema ar (slow_avg d) fft_norm alpha_used of
            Inl e \<Rightarrow> (d, Inl e)
          | Inr s \<Rightarrow>
             (let d1 = d\<lparr>slow_avg := Some s\<rparr>
              in (case ema ar (fast_avg d1) fft_norm (alpha_fast d1) of
                    Inl e \<Rightarrow> (d1, Inl e)
                  | Inr f \<Rightarrow>
                     (let d2 = d1\<lparr>fast_avg := Some f\<rparr>
                      in (case window_max ar (fast_avg d2) (slow_avg d2)
                                 (detect_start_sample d2) (detect_end_sample d2) of
                            Inl e \<Rightarrow> (d2, Inl e)
                          | Inr m \<Rightarrow>
                              (d2\<lparr>presence_status := (m > threshold_presence d2)\<rparr>, Inr ())))))))"

text \<open>Lines 90 to 98.\<close>

definition peeking_sensing :: "arith \<Rightarrow> detector \<Rightarrow> real list \<Rightarrow> detector \<times> (error + unit)" where
  "peeking_sensing ar d fft_norm =
     (let alpha_used = (if \<not> peeking_status d then alpha_med d else alpha_slow d)
      in (case ema ar (slow_peek_avg d) fft_norm alpha_used of
            Inl e \<Rightarrow> (d, Inl e)
          | Inr s \<Rightarrow>
             (let d1 = d\<lparr>slow_peek_avg := Some s\<rparr>
              in (case window_max ar (fast_avg d1) (slow_peek_avg d1)
                         (peek_start_sample d1) (peek_end_sample d1) of
                    Inl e \<Rightarrow> (d1, Inl e)
                  | Inr m \<Rightarrow>
                      (d1\<lparr>peeking_status := (m > threshold_peeking d1)\<rparr>, Inr ())))))"

text \<open>
  \<^verbatim>\<open>presence(self, mat)\<close>, lines 51 to 100: the state after the call, and either the exception
  that ended it or the pair \<^verbatim>\<open>(presence, peeking)\<close> it returned. \<open>sense\<close> is lines 72 to 100, what
  the call does once it has the mean spectrum \<^verbatim>\<open>fft_norm\<close>.
\<close>

definition sense :: "arith \<Rightarrow> detector \<Rightarrow> real list \<Rightarrow> detector \<times> (error + bool \<times> bool)" where
  "sense ar d fft_norm =
     (let d1 = initialize_averages d fft_norm
      in (case presence_sensing ar d1 fft_norm of
            (d2, Inl e) \<Rightarrow> (d2, Inl e)
          | (d2, Inr u) \<Rightarrow>
             (case peeking_sensing ar d2 fft_norm of
                (d3, Inl e) \<Rightarrow> (d3, Inl e)
              | (d3, Inr u') \<Rightarrow> (d3, Inr (presence_status d3, peeking_status d3)))))"

definition presence ::
    "arith \<Rightarrow> fft_helper \<Rightarrow> detector \<Rightarrow> real array2 \<Rightarrow> detector \<times> (error + bool \<times> bool)" where
  "presence ar fft_spectrum d mat =
     (case fft_spectrum mat (range_window d) of
        Inl e \<Rightarrow> (d, Inl e)
      | Inr range_fft \<Rightarrow>
         (case fft_norm_of ar d range_fft of
            Inl e \<Rightarrow> (d, Inl e)
          | Inr fft_norm \<Rightarrow> sense ar d fft_norm))"

text \<open>
  The life of one object: the frames it is given one after the other. The caller may catch an
  exception and go on with the same object, so a failed call passes its state on as well.
\<close>

fun run_frames :: "arith \<Rightarrow> fft_helper \<Rightarrow> detector \<Rightarrow> real array2 list \<Rightarrow> detector" where
  "run_frames ar fft_spectrum d [] = d"
| "run_frames ar fft_spectrum d (mat # mats) =
     run_frames ar fft_spectrum (fst (presence ar fft_spectrum d mat)) mats"

subsection \<open>The attributes that only the constructor assigns\<close>

definition constants ::
    "detector \<Rightarrow> (int \<times> int) \<times> (int \<times> int \<times> int \<times> int) \<times> (real \<times> real) \<times> (real \<times> real \<times> real) \<times> real list" where
  "constants d =
     ((num_samples_per_chirp d, num_chirps_per_frame d),
      (detect_start_sample d, detect_end_sample d, peek_start_sample d, peek_end_sample d),
      (threshold_presence d, threshold_peeking d),
      (alpha_slow d, alpha_med d, alpha_fast d),
      range_window d)"

text \<open>
  The averages of a detector have length \<open>n\<close> when, once it has seen a frame, all three are
  set and have that length.
\<close>

definition averages_of_length :: "nat \<Rightarrow> detector \<Rightarrow> bool" where
  "averages_of_length n d \<longleftrightarrow>
     first_run d \<or>
     (\<exists>a b c. slow_avg d = Some a \<and> fast_avg d = Some b \<and> slow_peek_avg d = Some c
              \<and> length a = n \<and> length b = n \<and> length c = n)"

text \<open>
  What the first-frame statements need of the arithmetic, and float64 has: zero is a float,
  the magnitude of zero is zero, and rounding keeps the sign of what is not negative.
\<close>

definition keeps_zero :: "arith \<Rightarrow> bool" where
  "keeps_zero ar \<longleftrightarrow> rnd ar 0 = 0 \<and> cabs ar 0 = 0 \<and> (\<forall>x. 0 \<le> x \<longrightarrow> 0 \<le> rnd ar x)"

subsection \<open>Library functions for worked examples\<close>

text \<open>
  Modelled from the spec: the Blackman-Harris window that \<^verbatim>\<open>scipy.signal\<close> provides (a
  library, not under src/). The specification asks for the standard four-term cosine taper of
  length \<^verbatim>\<open>samples_per_chirp\<close>; a negative length is rejected and lengths below two give
  ones, as the library does.
\<close>

definition bh_window :: "nat \<Rightarrow> real list" where
  "bh_window n =
     (if n \<le> 1 then replicate n 1
      else map (\<lambda>j. 35875 / 100000
                      - 48829 / 100000 * cos (2 * pi * real j / real (n - 1))
                      + 14128 / 100000 * cos (4 * pi * real j / real (n - 1))
                      - 1168 / 100000 * cos (6 * pi * real j / real (n - 1)))
               [0..<n])"

definition blackmanharris_spec :: window_fn where
  "blackmanharris_spec n = (if n < 0 then Inl ValueError else Inr (bh_window (nat n)))"

text \<open>
  Modelled from the spec: the windowed-FFT helper \<^verbatim>\<open>helpers.fft_spectrum\<close>, which is not under
  src/. By its contract it takes a matrix with \<open>N\<close> columns and a window of length \<open>N\<close>,
  multiplies every row by the window and returns the discrete Fourier transform of every row;
  a frame it cannot transform is reported as \<^verbatim>\<open>SpectralTransformFailure\<close>.
\<close>

definition dft_row :: "real list \<Rightarrow> complex list" where
  "dft_row x =
     map (\<lambda>k. sum_list (map (\<lambda>j. complex_of_real (x ! j)
                                    * cis (- (2 * pi * real k * real j / real (length x))))
                              [0..<length x]))
         [0..<length x]"

definition fft_spectrum_spec :: fft_helper where
  "fft_spectrum_spec mat w =
     (if ncols mat \<noteq> length w \<or> (\<exists>r \<in> set (rows mat). length r \<noteq> ncols mat)
      then Inl SpectralTransformFailure
      else Inr \<lparr>ncols = ncols mat, rows = map (\<lambda>r. dft_row (map2 (*) r w)) (rows mat)\<rparr>)"

text \<open>
  The same helper behind a check of its own: it reports a frame that does not fit the window
  as \<^verbatim>\<open>InvalidFrameShape\<close>.
\<close>

definition checked_fft_spectrum :: fft_helper where
  "checked_fft_spectrum mat w =
     (if ncols mat \<noteq> length w \<or> (\<exists>r \<in> set (rows mat). length r \<noteq> ncols mat)
      then Inl InvalidFrameShape
      else fft_spectrum_spec mat w)"

text \<open>
  A helper without a transform, for examples that need a spectrum with chosen values: it
  returns the samples themselves as the spectrum.
\<close>

definition samples_as_spectrum :: fft_helper where
  "samples_as_spectrum mat w =
     (if ncols mat \<noteq> length w then Inl SpectralTransformFailure
      else Inr \<lparr>ncols = ncols mat, rows = map (map complex_of_real) (rows mat)\<rparr>)"

text \<open>
  A helper keeps the shape when every spectrum it returns has \<open>n\<close> columns in every row.
\<close>

definition keeps_shape :: "fft_helper \<Rightarrow> real list \<Rightarrow> nat \<Rightarrow> bool" where
  "keeps_shape fft w n \<longleftrightarrow>
     (\<forall>mat rf. fft mat w = Inr rf \<longrightarrow> ncols rf = n \<and> (\<forall>r \<in> set (rows rf). length r = n))"

text \<open>A frame of \<open>k\<close> chirps with \<open>n\<close> samples each, all zero.\<close>

definition zero_frame :: "nat \<Rightarrow> nat \<Rightarrow> real array2" where
  "zero_frame k n = \<lparr>ncols = n, rows = replicate k (replicate n 0)\<rparr>"

text \<open>The spectrum of \<open>k\<close> rows and \<open>n\<close> columns that is zero everywhere.\<close>

definition zero_spectrum :: "nat \<Rightarrow> nat \<Rightarrow> complex array2" where
  "zero_spectrum k n = \<lparr>ncols = n, rows = replicate k (replicate n 0)\<rparr>"

subsection \<open>The maximum over a half-open range of bins\<close>

text \<open>
  The specification's reading of the two thresholds: \<open>m\<close> is the largest value of \<open>data\<close> at
  the bins \<open>i\<close> with \<open>a \<le> i < b\<close> (those that exist). It is stated on the indices, to be
  compared with the slice and \<^verbatim>\<open>np.max\<close> of the code.
\<close>

definition is_max_over_bins :: "real list \<Rightarrow> int \<Rightarrow> int \<Rightarrow> real \<Rightarrow> bool" where
  "is_max_over_bins data a b m \<longleftrightarrow>
     (let bins = filter (\<lambda>i. a \<le> int i \<and> int i < b) [0..<length data]
      in (\<exists>i \<in> set bins. data ! i = m) \<and> (\<forall>i \<in> set bins. data ! i \<le> m))"

text \<open>
  The update of one bin of an average, and one bin of a differential, as the code rounds them:
  \<^verbatim>\<open>avg * (1 - alpha) + x * alpha\<close> and \<^verbatim>\<open>fast - slow\<close>.
\<close>

definition ema_bin :: "arith \<Rightarrow> real \<Rightarrow> real \<Rightarrow> real \<Rightarrow> real" where
  "ema_bin ar alpha avg x =
     rnd ar (rnd ar (avg * rnd ar (1 - alpha)) + rnd ar (x * alpha))"

definition diff_bin :: "arith \<Rightarrow> real \<Rightarrow> real \<Rightarrow> real" where
  "diff_bin ar fast slow = rnd ar (fast - slow)"

subsection \<open>Frames and states of the worked runs\<close>

text \<open>
  The worked runs use exact arithmetic. Detectors with two samples per chirp have the detect
  window \<open>[0, 1)\<close> and the peek window \<open>[1, 2)\<close>. \<open>settled\<close> is a detector after one frame of
  zeros.
\<close>

definition settled_2_1 :: detector where
  "settled_2_1 = (new_detector exact 2 1 (bh_window 2))
     \<lparr>first_run := False, slow_avg := Some [0, 0], fast_avg := Some [0, 0],
      slow_peek_avg := Some [0, 0]\<rparr>"

text \<open>
  A frame with energy in both bins, and the state it leaves: presence and peeking. With the
  fast average of before the call both differentials would be negative.
\<close>

definition both_frame :: "real array2" where
  "both_frame = \<lparr>ncols = 2, rows = [[1, 1]]\<rparr>"

definition both_2_1 :: detector where
  "both_2_1 = (new_detector exact 2 1 (bh_window 2))
     \<lparr>first_run := False, slow_avg := Some [1 / 20, 1 / 20], fast_avg := Some [3 / 5, 3 / 5],
      slow_peek_avg := Some [1 / 20, 1 / 20], presence_status := True, peeking_status := True\<rparr>"

text \<open>
  Two chirps per frame: a frame with energy in the near bin only, the state after one such
  frame (presence detected) and after a second one.
\<close>

definition spike_frame :: "real array2" where
  "spike_frame = \<lparr>ncols = 2, rows = [[1, 0], [1, 0]]\<rparr>"

definition settled_2_2 :: detector where
  "settled_2_2 = (new_detector exact 2 2 (bh_window 2))
     \<lparr>first_run := False, slow_avg := Some [0, 0], fast_avg := Some [0, 0],
      slow_peek_avg := Some [0, 0]\<rparr>"

definition occupied_2_2 :: detector where
  "occupied_2_2 = (new_detector exact 2 2 (bh_window 2))
     \<lparr>first_run := False, slow_avg := Some [1 / 20, 0], fast_avg := Some [3 / 5, 0],
      slow_peek_avg := Some [1 / 20, 0], presence_status := True\<rparr>"

definition occupied_twice_2_2 :: detector where
  "occupied_twice_2_2 = (new_detector exact 2 2 (bh_window 2))
     \<lparr>first_run := False, slow_avg := Some [1019 / 20000, 0], fast_avg := Some [21 / 25, 0],
      slow_peek_avg := Some [39 / 400, 0], presence_status := True\<rparr>"

text \<open>
  Eight samples per chirp: the detect window is \<open>[1, 4)\<close> and the peek window \<open>[4, 8)\<close>. A
  detector after one frame of zeros, a frame with energy in bin 2 only, and the state it
  leaves.
\<close>

definition settled_8 :: "int \<Rightarrow> detector" where
  "settled_8 c = (new_detector exact 8 c (bh_window 8))
     \<lparr>first_run := False, slow_avg := Some (replicate 8 0), fast_avg := Some (replicate 8 0),
      slow_peek_avg := Some (replicate 8 0)\<rparr>"

definition near_frame_8 :: "real array2" where
  "near_frame_8 = \<lparr>ncols = 8, rows = [[0, 0, 1, 0, 0, 0, 0, 0]]\<rparr>"

definition near_8_1 :: detector where
  "near_8_1 = (new_detector exact 8 1 (bh_window 8))
     \<lparr>first_run := False,
      slow_avg := Some [0, 0, 1 / 20, 0, 0, 0, 0, 0],
      fast_avg := Some [0, 0, 3 / 5, 0, 0, 0, 0, 0],
      slow_peek_avg := Some [0, 0, 1 / 20, 0, 0, 0, 0, 0],
      presence_status := True\<rparr>"

section \<open>Properties\<close>

subsection \<open>What the update leaves alone\<close>

lemma initialize_averages_constants [simp]:
  "constants (initialize_averages d fn) = constants d"
  by (simp add: initialize_averages_def constants_def)

lemma presence_sensing_constants [simp]:
  "constants (fst (presence_sensing ar d fn)) = constants d"
  by (simp add: presence_sensing_def constants_def Let_def split: sum.splits)

lemma peeking_sensing_constants [simp]:
  "constants (fst (peeking_sensing ar d fn)) = constants d"
  by (simp add: peeking_sensing_def constants_def Let_def split: sum.splits)

lemma sense_constants [simp]:
  "constants (fst (sense ar d fn)) = constants d"
proof -
  let ?d1 = "initialize_averages d fn"
  obtain d2 r2 where ps: "presence_sensing ar ?d1 fn = (d2, r2)"
    by (cases "presence_sensing ar ?d1 fn")
  obtain d3 r3 where pk: "peeking_sensing ar d2 fn = (d3, r3)"
    by (cases "peeking_sensing ar d2 fn")
  have c2: "constants d2 = constants d"
    using presence_sensing_constants [of ar ?d1 fn] ps by simp
  have c3: "constants d3 = constants d"
    using peeking_sensing_constants [of ar d2 fn] pk c2 by simp
  show ?thesis
    using ps pk c2 c3 by (simp add: sense_def Let_def split: sum.splits)
qed

lemma presence_constants [simp]:
  "constants (fst (presence ar fft d mat)) = constants d"
  by (simp add: presence_def split: sum.splits)

lemma run_frames_constants [simp]:
  "constants (run_frames ar fft d mats) = constants d"
  by (induction mats arbitrary: d) simp_all

lemma init_constants:
  assumes "PresenceAntiPeekingAlgo_init ar w1 w2 n c = Inr d"
  shows "\<exists>w. constants d =
           ((n, c), (n div 8, n div 2, n div 2, n),
            (rnd ar (7 / 10000), rnd ar (6 / 10000)),
            (rnd ar (1 / 1000), rnd ar (5 / 100), rnd ar (6 / 10)), w)"
  using assms
  by (auto simp: PresenceAntiPeekingAlgo_init_def new_detector_def constants_def
           split: sum.splits error.splits)

lemma init_fresh:
  assumes "PresenceAntiPeekingAlgo_init ar w1 w2 n c = Inr d"
  shows "first_run d \<and> \<not> presence_status d \<and> \<not> peeking_status d
         \<and> slow_avg d = None \<and> fast_avg d = None \<and> slow_peek_avg d = None"
  using assms
  by (auto simp: PresenceAntiPeekingAlgo_init_def new_detector_def split: sum.splits error.splits)

subsection \<open>The steps of a call that returns, and of one that raises\<close>

lemma initialize_averages_fields [simp]:
  "presence_status (initialize_averages d fn) = presence_status d"
  "peeking_status (initialize_averages d fn) = peeking_status d"
  "alpha_slow (initialize_averages d fn) = alpha_slow d"
  "alpha_med (initialize_averages d fn) = alpha_med d"
  "alpha_fast (initialize_averages d fn) = alpha_fast d"
  "threshold_presence (initialize_averages d fn) = threshold_presence d"
  "threshold_peeking (initialize_averages d fn) = threshold_peeking d"
  "detect_start_sample (initialize_averages d fn) = detect_start_sample d"
  "detect_end_sample (initialize_averages d fn) = detect_end_sample d"
  "peek_start_sample (initialize_averages d fn) = peek_start_sample d"
  "peek_end_sample (initialize_averages d fn) = peek_end_sample d"
  "first_run (initialize_averages d fn) = False"
  by (simp_all add: initialize_averages_def)

lemma presence_sensing_Inr:
  assumes "presence_sensing ar d fn = (d2, Inr u)"
  shows "\<exists>s f m.
           ema ar (slow_avg d) fn (if \<not> presence_status d then alpha_med d else alpha_slow d) = Inr s
         \<and> ema ar (fast_avg d) fn (alpha_fast d) = Inr f
         \<and> window_max ar (Some f) (Some s) (detect_start_sample d) (detect_end_sample d) = Inr m
         \<and> d2 = d\<lparr>slow_avg := Some s, fast_avg := Some f,
                   presence_status := (threshold_presence d < m)\<rparr>"
  using assms
  by (auto simp: presence_sensing_def Let_def split: sum.splits)

lemma peeking_sensing_Inr:
  assumes "peeking_sensing ar d fn = (d3, Inr u)"
  shows "\<exists>sp mp.
           ema ar (slow_peek_avg d) fn (if \<not> peeking_status d then alpha_med d else alpha_slow d) = Inr sp
         \<and> window_max ar (fast_avg d) (Some sp) (peek_start_sample d) (peek_end_sample d) = Inr mp
         \<and> d3 = d\<lparr>slow_peek_avg := Some sp, peeking_status := (threshold_peeking d < mp)\<rparr>"
  using assms
  by (auto simp: peeking_sensing_def Let_def split: sum.splits)

lemma sense_Inr:
  assumes "sense ar d fn = (d', Inr pq)"
  shows "\<exists>d2. presence_sensing ar (initialize_averages d fn) fn = (d2, Inr ())
            \<and> peeking_sensing ar d2 fn = (d', Inr ())
            \<and> pq = (presence_status d', peeking_status d')"
  using assms
  by (auto simp: sense_def Let_def split: sum.splits prod.splits)

lemma presence_Inr:
  assumes "presence ar fft d mat = (d', Inr pq)"
  shows "\<exists>rf fn. fft mat (range_window d) = Inr rf \<and> fft_norm_of ar d rf = Inr fn
               \<and> sense ar d fn = (d', Inr pq)"
  using assms
  by (auto simp: presence_def split: sum.splits)

lemma presence_Inl:
  assumes "presence ar fft d mat = (d', Inl e)"
  shows "(fft mat (range_window d) = Inl e \<and> d' = d)
       \<or> (\<exists>rf. fft mat (range_window d) = Inr rf \<and> fft_norm_of ar d rf = Inl e \<and> d' = d)
       \<or> (\<exists>rf fn. fft mat (range_window d) = Inr rf \<and> fft_norm_of ar d rf = Inr fn
                  \<and> sense ar d fn = (d', Inl e))"
  using assms
  by (auto simp: presence_def split: sum.splits)

lemma fft_norm_of_error: "fft_norm_of ar d rf = Inl e \<Longrightarrow> e = OverflowError"
  by (simp add: fft_norm_of_def np_divide_def split: if_splits)

lemma ema_error: "ema ar avg x a = Inl e \<Longrightarrow> e = ValueError \<or> e = AttributeError"
  by (auto simp: ema_def np_add_def np_binop_def split: option.splits if_splits)

lemma window_max_error: "window_max ar f s a b = Inl e \<Longrightarrow> e = ValueError \<or> e = AttributeError"
  by (auto simp: window_max_def np_sub_def np_binop_def split: option.splits if_splits sum.splits
           elim: np_max.elims)

lemma presence_sensing_Inl:
  assumes "presence_sensing ar d fn = (d', Inl e)"
  shows "(ema ar (slow_avg d) fn (if presence_status d then alpha_slow d else alpha_med d) = Inl e
          \<and> d' = d)
       \<or> (\<exists>s. ema ar (slow_avg d) fn (if presence_status d then alpha_slow d else alpha_med d)
                 = Inr s
             \<and> ema ar (fast_avg d) fn (alpha_fast d) = Inl e
             \<and> d' = d\<lparr>slow_avg := Some s\<rparr>)
       \<or> (\<exists>s f. ema ar (slow_avg d) fn (if presence_status d then alpha_slow d else alpha_med d)
                 = Inr s
             \<and> ema ar (fast_avg d) fn (alpha_fast d) = Inr f
             \<and> window_max ar (Some f) (Some s) (detect_start_sample d) (detect_end_sample d)
                 = Inl e
             \<and> d' = d\<lparr>slow_avg := Some s, fast_avg := Some f\<rparr>)"
proof -
  let ?a = "if presence_status d then alpha_slow d else alpha_med d"
  have a: "(if \<not> presence_status d then alpha_med d else alpha_slow d) = ?a" by simp
  show ?thesis
  proof (cases "ema ar (slow_avg d) fn ?a")
    case (Inl e1)
    with assms a show ?thesis by (simp add: presence_sensing_def)
  next
    case s: (Inr s)
    show ?thesis
    proof (cases "ema ar (fast_avg d) fn (alpha_fast d)")
      case (Inl e1)
      with assms a s show ?thesis by (simp add: presence_sensing_def)
    next
      case f: (Inr f)
      show ?thesis
      proof (cases "window_max ar (Some f) (Some s) (detect_start_sample d) (detect_end_sample d)")
        case (Inl e1)
        with assms a s f show ?thesis by (simp add: presence_sensing_def)
      next
        case (Inr m)
        with assms a s f show ?thesis by (simp add: presence_sensing_def)
      qed
    qed
  qed
qed

lemma peeking_sensing_Inl:
  assumes "peeking_sensing ar d fn = (d', Inl e)"
  shows "(ema ar (slow_peek_avg d) fn (if peeking_status d then alpha_slow d else alpha_med d)
            = Inl e
          \<and> d' = d)
       \<or> (\<exists>sp. ema ar (slow_peek_avg d) fn (if peeking_status d then alpha_slow d else alpha_med d)
                 = Inr sp
             \<and> window_max ar (fast_avg d) (Some sp) (peek_start_sample d) (peek_end_sample d)
                 = Inl e
             \<and> d' = d\<lparr>slow_peek_avg := Some sp\<rparr>)"
proof -
  let ?a = "if peeking_status d then alpha_slow d else alpha_med d"
  have a: "(if \<not> peeking_status d then alpha_med d else alpha_slow d) = ?a" by simp
  show ?thesis
  proof (cases "ema ar (slow_peek_avg d) fn ?a")
    case (Inl e1)
    with assms a show ?thesis by (simp add: peeking_sensing_def)
  next
    case sp: (Inr sp)
    show ?thesis
    proof (cases "window_max ar (fast_avg d) (Some sp) (peek_start_sample d) (peek_end_sample d)")
      case (Inl e1)
      with assms a sp show ?thesis by (simp add: peeking_sensing_def)
    next
      case (Inr m)
      with assms a sp show ?thesis by (simp add: peeking_sensing_def)
    qed
  qed
qed

lemma sense_Inl:
  assumes "sense ar d fn = (d', Inl e)"
  shows "presence_sensing ar (initialize_averages d fn) fn = (d', Inl e)
       \<or> (\<exists>d2. presence_sensing ar (initialize_averages d fn) fn = (d2, Inr ())
              \<and> peeking_sensing ar d2 fn = (d', Inl e))"
proof -
  obtain d2 r2 where ps: "presence_sensing ar (initialize_averages d fn) fn = (d2, r2)"
    by (cases "presence_sensing ar (initialize_averages d fn) fn")
  obtain d3 r3 where pk: "peeking_sensing ar d2 fn = (d3, r3)"
    by (cases "peeking_sensing ar d2 fn")
  show ?thesis
  proof (cases r2)
    case (Inl e2)
    with assms ps show ?thesis by (simp add: sense_def)
  next
    case (Inr u)
    show ?thesis
    proof (cases r3)
      case (Inl e3)
      with assms ps pk Inr show ?thesis by (simp add: sense_def)
    next
      case Inr3: (Inr u3)
      with assms ps pk Inr show ?thesis by (simp add: sense_def)
    qed
  qed
qed

lemma sense_Inl_summary:
  assumes "sense ar d fn = (d', Inl e)"
  shows "(e = ValueError \<or> e = AttributeError) \<and> \<not> first_run d'
         \<and> peeking_status d' = peeking_status d"
proof -
  let ?d1 = "initialize_averages d fn"
  from sense_Inl [OF assms] show ?thesis
  proof
    assume ps: "presence_sensing ar ?d1 fn = (d', Inl e)"
    from presence_sensing_Inl [OF ps] show ?thesis
      by (auto dest: ema_error window_max_error)
  next
    assume "\<exists>d2. presence_sensing ar ?d1 fn = (d2, Inr ()) \<and> peeking_sensing ar d2 fn = (d', Inl e)"
    then obtain d2 where ps: "presence_sensing ar ?d1 fn = (d2, Inr ())"
      and pk: "peeking_sensing ar d2 fn = (d', Inl e)"
      by blast
    from presence_sensing_Inr [OF ps] have d2: "\<not> first_run d2" "peeking_status d2 = peeking_status d"
      by auto
    from peeking_sensing_Inl [OF pk] d2 show ?thesis
      by (auto dest: ema_error window_max_error)
  qed
qed

lemma presence_helper_failure:
  assumes "fft mat (range_window d) = Inl e"
  shows "presence ar fft d mat = (d, Inl e)"
  using assms by (simp add: presence_def)

subsection \<open>Slices and maxima\<close>

lemma slice_bound_le: "slice_bound i n \<le> n"
  by (auto simp: slice_bound_def)

lemma length_py_slice:
  "length (py_slice v a b) = slice_bound b (length v) - slice_bound a (length v)"
  using slice_bound_le [of b "length v"] by (simp add: py_slice_def Let_def)

lemma py_slice_nth:
  assumes "j < length (py_slice v a b)"
  shows "py_slice v a b ! j = v ! (slice_bound a (length v) + j)"
  using assms slice_bound_le [of a "length v"]
  by (simp add: py_slice_def Let_def)

lemma py_slice_replicate:
  "py_slice (replicate n x) a b = replicate (slice_bound b n - slice_bound a n) x"
  using slice_bound_le [of b n] by (simp add: py_slice_def Let_def min_def)

lemma py_slice_negative_empty:
  assumes "n < 0"
  shows "py_slice v (n div 8) (n div 2) = []"
proof -
  have "n div 2 \<le> n div 8" "n div 8 < 0" using assms by linarith+
  then have "slice_bound (n div 2) (length v) \<le> slice_bound (n div 8) (length v)"
    unfolding slice_bound_def by auto
  then show ?thesis using length_py_slice [of v "n div 8" "n div 2"] by simp
qed

lemma np_max_Inr_iff: "np_max xs = Inr m \<longleftrightarrow> xs \<noteq> [] \<and> m = Max (set xs)"
  by (cases xs) (auto simp: Max.set_eq_fold [symmetric])

lemma np_max_Inl_iff: "np_max xs = Inl e \<longleftrightarrow> xs = [] \<and> e = ValueError"
  by (cases xs) auto

lemma np_max_replicate: "0 < k \<Longrightarrow> np_max (replicate k x) = Inr x"
  by (simp add: np_max_Inr_iff)

lemma set_py_slice:
  assumes "0 \<le> a" "0 \<le> b"
  shows "set (py_slice v a b) = {v ! i | i. a \<le> int i \<and> int i < b \<and> i < length v}"
proof -
  let ?s = "slice_bound a (length v)" and ?e = "slice_bound b (length v)"
  have s: "?s = min (nat a) (length v)" and e: "?e = min (nat b) (length v)"
    using assms by (simp_all add: slice_bound_def)
  have "set (py_slice v a b) = {py_slice v a b ! j | j. j < length (py_slice v a b)}"
    by (simp add: set_conv_nth)
  also have "\<dots> = {v ! (?s + j) | j. j < ?e - ?s}"
  proof -
    have nth: "py_slice v a b ! j = v ! (?s + j)" if "j < ?e - ?s" for j
      using that py_slice_nth [of j v a b] by (simp add: length_py_slice)
    show ?thesis
      unfolding length_py_slice by (intro Collect_cong) (metis nth)
  qed
  also have "\<dots> = {v ! i | i. a \<le> int i \<and> int i < b \<and> i < length v}"
  proof (intro equalityI subsetI)
    fix x assume "x \<in> {v ! (?s + j) | j. j < ?e - ?s}"
    then obtain j where j: "x = v ! (?s + j)" "j < ?e - ?s" by blast
    then have "a \<le> int (?s + j)" "int (?s + j) < b" "?s + j < length v"
      using assms s e by linarith+
    with j show "x \<in> {v ! i | i. a \<le> int i \<and> int i < b \<and> i < length v}" by blast
  next
    fix x assume "x \<in> {v ! i | i. a \<le> int i \<and> int i < b \<and> i < length v}"
    then obtain i where i: "x = v ! i" "a \<le> int i" "int i < b" "i < length v" by blast
    then have "?s \<le> i" "i - ?s < ?e - ?s" using assms s e by linarith+
    then have "x = v ! (?s + (i - ?s))" "i - ?s < ?e - ?s" using i by simp_all
    then show "x \<in> {v ! (?s + j) | j. j < ?e - ?s}" by blast
  qed
  finally show ?thesis .
qed

lemma np_max_py_slice_bins:
  assumes "np_max (py_slice data a b) = Inr m" "0 \<le> a" "0 \<le> b"
  shows "is_max_over_bins data a b m"
proof -
  let ?S = "set (py_slice data a b)"
  from assms(1) have ne: "py_slice data a b \<noteq> []" and m: "m = Max ?S"
    by (simp_all add: np_max_Inr_iff)
  have "m \<in> ?S" using ne m by simp
  moreover have "\<forall>x \<in> ?S. x \<le> m" using m by simp
  ultimately show ?thesis
    unfolding set_py_slice [OF assms(2,3)] is_max_over_bins_def Let_def
    by auto
qed

subsection \<open>A fresh detector\<close>

lemma new_detector_fields [simp]:
  "num_samples_per_chirp (new_detector ar n c w) = n"
  "num_chirps_per_frame (new_detector ar n c w) = c"
  "detect_start_sample (new_detector ar n c w) = n div 8"
  "detect_end_sample (new_detector ar n c w) = n div 2"
  "peek_start_sample (new_detector ar n c w) = n div 2"
  "peek_end_sample (new_detector ar n c w) = n"
  "threshold_presence (new_detector ar n c w) = rnd ar (7 / 10000)"
  "threshold_peeking (new_detector ar n c w) = rnd ar (6 / 10000)"
  "alpha_slow (new_detector ar n c w) = rnd ar (1 / 1000)"
  "alpha_med (new_detector ar n c w) = rnd ar (5 / 100)"
  "alpha_fast (new_detector ar n c w) = rnd ar (6 / 10)"
  "presence_status (new_detector ar n c w) = False"
  "peeking_status (new_detector ar n c w) = False"
  "first_run (new_detector ar n c w) = True"
  "range_window (new_detector ar n c w) = w"
  "slow_avg (new_detector ar n c w) = None"
  "fast_avg (new_detector ar n c w) = None"
  "slow_peek_avg (new_detector ar n c w) = None"
  by (simp_all add: new_detector_def)

lemma exact_fields [simp]:
  "rnd exact x = x" "cabs exact z = cmod z" "div0 exact x = 0"
  by (simp_all add: exact_def)

lemma init_failure:
  assumes "PresenceAntiPeekingAlgo_init ar w1 w2 n c = Inl e"
  shows "(w1 n = Inl e \<and> e \<noteq> AttributeError) \<or> (w1 n = Inl AttributeError \<and> w2 n = Inl e)"
  using assms
  by (auto simp: PresenceAntiPeekingAlgo_init_def split: sum.splits error.splits)

lemma constructed_constants:
  assumes "PresenceAntiPeekingAlgo_init ar w1 w2 n c = Inr d0"
    and "d = run_frames ar fft d0 mats"
  shows "num_samples_per_chirp d = n" "num_chirps_per_frame d = c"
    "detect_start_sample d = n div 8" "detect_end_sample d = n div 2"
    "peek_start_sample d = n div 2" "peek_end_sample d = n"
    "threshold_presence d = rnd ar (7 / 10000)" "threshold_peeking d = rnd ar (6 / 10000)"
    "alpha_slow d = rnd ar (1 / 1000)" "alpha_med d = rnd ar (5 / 100)"
    "alpha_fast d = rnd ar (6 / 10)" "range_window d = range_window d0"
proof -
  from init_constants [OF assms(1)] obtain w where
    "constants d0 = ((n, c), (n div 8, n div 2, n div 2, n),
                     (rnd ar (7 / 10000), rnd ar (6 / 10000)),
                     (rnd ar (1 / 1000), rnd ar (5 / 100), rnd ar (6 / 10)), w)"
    by blast
  moreover have "constants d = constants d0"
    using assms(2) by simp
  ultimately show "num_samples_per_chirp d = n" "num_chirps_per_frame d = c"
    "detect_start_sample d = n div 8" "detect_end_sample d = n div 2"
    "peek_start_sample d = n div 2" "peek_end_sample d = n"
    "threshold_presence d = rnd ar (7 / 10000)" "threshold_peeking d = rnd ar (6 / 10000)"
    "alpha_slow d = rnd ar (1 / 1000)" "alpha_med d = rnd ar (5 / 100)"
    "alpha_fast d = rnd ar (6 / 10)" "range_window d = range_window d0"
    by (simp_all add: constants_def)
qed

subsection \<open>A call that returns\<close>

lemma sense_success:
  assumes "sense ar d fn = (d', Inr (p, q))"
  shows "\<exists>s f m sp mp d2.
           ema ar (slow_avg (initialize_averages d fn)) fn
               (if presence_status d then alpha_slow d else alpha_med d) = Inr s
         \<and> ema ar (fast_avg (initialize_averages d fn)) fn (alpha_fast d) = Inr f
         \<and> window_max ar (Some f) (Some s) (detect_start_sample d) (detect_end_sample d) = Inr m
         \<and> ema ar (slow_peek_avg (initialize_averages d fn)) fn
               (if peeking_status d then alpha_slow d else alpha_med d) = Inr sp
         \<and> window_max ar (Some f) (Some sp) (peek_start_sample d) (peek_end_sample d) = Inr mp
         \<and> presence_sensing ar (initialize_averages d fn) fn = (d2, Inr ())
         \<and> d2 = (initialize_averages d fn)
                   \<lparr>slow_avg := Some s, fast_avg := Some f,
                    presence_status := (threshold_presence d < m)\<rparr>
         \<and> peeking_sensing ar d2 fn = (d', Inr ())
         \<and> d' = (initialize_averages d fn)
                   \<lparr>slow_avg := Some s, fast_avg := Some f,
                    presence_status := (threshold_presence d < m),
                    slow_peek_avg := Some sp,
                    peeking_status := (threshold_peeking d < mp)\<rparr>
         \<and> p = (threshold_presence d < m) \<and> q = (threshold_peeking d < mp)"
proof -
  let ?d1 = "initialize_averages d fn"
  from sense_Inr [OF assms] obtain d2 where
    ps: "presence_sensing ar ?d1 fn = (d2, Inr ())"
    and pk: "peeking_sensing ar d2 fn = (d', Inr ())"
    and pq: "(p, q) = (presence_status d', peeking_status d')"
    by blast
  from presence_sensing_Inr [OF ps] obtain s f m where
    s: "ema ar (slow_avg ?d1) fn (if \<not> presence_status ?d1 then alpha_med ?d1 else alpha_slow ?d1) = Inr s"
    and f: "ema ar (fast_avg ?d1) fn (alpha_fast ?d1) = Inr f"
    and m: "window_max ar (Some f) (Some s) (detect_start_sample ?d1) (detect_end_sample ?d1) = Inr m"
    and d2: "d2 = ?d1\<lparr>slow_avg := Some s, fast_avg := Some f,
                       presence_status := (threshold_presence ?d1 < m)\<rparr>"
    by blast
  from peeking_sensing_Inr [OF pk] obtain sp mp where
    sp: "ema ar (slow_peek_avg d2) fn (if \<not> peeking_status d2 then alpha_med d2 else alpha_slow d2) = Inr sp"
    and mp: "window_max ar (fast_avg d2) (Some sp) (peek_start_sample d2) (peek_end_sample d2) = Inr mp"
    and d3: "d' = d2\<lparr>slow_peek_avg := Some sp, peeking_status := (threshold_peeking d2 < mp)\<rparr>"
    by blast
  have s': "ema ar (slow_avg ?d1) fn (if presence_status d then alpha_slow d else alpha_med d) = Inr s"
    using s by (simp split: if_splits)
  have f': "ema ar (fast_avg ?d1) fn (alpha_fast d) = Inr f"
    using f by simp
  have m': "window_max ar (Some f) (Some s) (detect_start_sample d) (detect_end_sample d) = Inr m"
    using m by simp
  have sp': "ema ar (slow_peek_avg ?d1) fn (if peeking_status d then alpha_slow d else alpha_med d) = Inr sp"
    using sp by (simp add: d2 split: if_splits)
  have mp': "window_max ar (Some f) (Some sp) (peek_start_sample d) (peek_end_sample d) = Inr mp"
    using mp by (simp add: d2)
  have d2': "d2 = ?d1\<lparr>slow_avg := Some s, fast_avg := Some f,
                       presence_status := (threshold_presence d < m)\<rparr>"
    using d2 by simp
  have eq: "d' = ?d1\<lparr>slow_avg := Some s, fast_avg := Some f,
                     presence_status := (threshold_presence d < m),
                     slow_peek_avg := Some sp,
                     peeking_status := (threshold_peeking d < mp)\<rparr>"
    by (simp add: d3 d2)
  have "p = (threshold_presence d < m)" "q = (threshold_peeking d < mp)"
    using pq by (simp_all add: d3 d2)
  with s' f' m' sp' mp' ps d2' pk eq show ?thesis by blast
qed

lemma presence_success:
  assumes "presence ar fft d mat = (d', Inr (p, q))"
  shows "\<exists>rf fn s f m sp mp d2.
           fft mat (range_window d) = Inr rf \<and> fft_norm_of ar d rf = Inr fn
         \<and> ema ar (slow_avg (initialize_averages d fn)) fn
               (if presence_status d then alpha_slow d else alpha_med d) = Inr s
         \<and> ema ar (fast_avg (initialize_averages d fn)) fn (alpha_fast d) = Inr f
         \<and> window_max ar (Some f) (Some s) (detect_start_sample d) (detect_end_sample d) = Inr m
         \<and> ema ar (slow_peek_avg (initialize_averages d fn)) fn
               (if peeking_status d then alpha_slow d else alpha_med d) = Inr sp
         \<and> window_max ar (Some f) (Some sp) (peek_start_sample d) (peek_end_sample d) = Inr mp
         \<and> presence_sensing ar (initialize_averages d fn) fn = (d2, Inr ())
         \<and> d2 = (initialize_averages d fn)
                   \<lparr>slow_avg := Some s, fast_avg := Some f,
                    presence_status := (threshold_presence d < m)\<rparr>
         \<and> peeking_sensing ar d2 fn = (d', Inr ())
         \<and> d' = (initialize_averages d fn)
                   \<lparr>slow_avg := Some s, fast_avg := Some f,
                    presence_status := (threshold_presence d < m),
                    slow_peek_avg := Some sp,
                    peeking_status := (threshold_peeking d < mp)\<rparr>
         \<and> p = (threshold_presence d < m) \<and> q = (threshold_peeking d < mp)"
proof -
  from presence_Inr [OF assms] obtain rf fn where
    rf: "fft mat (range_window d) = Inr rf" and fn: "fft_norm_of ar d rf = Inr fn"
    and se: "sense ar d fn = (d', Inr (p, q))"
    by blast
  from sense_success [OF se] rf fn show ?thesis by blast
qed

lemma ema_same_length:
  assumes "length avg = length x"
  shows "ema ar (Some avg) x coef = Inr (map2 (ema_bin ar coef) avg x)"
proof -
  have "map2 (fadd ar) (map (\<lambda>a. fmul ar a (fsub ar 1 coef)) avg) (map (\<lambda>y. fmul ar y coef) x)
          = map2 (ema_bin ar coef) avg x"
    by (simp add: zip_map1 zip_map2 case_prod_unfold comp_def ema_bin_def fadd_def fmul_def
                  fsub_def)
  then show ?thesis
    using assms by (simp add: ema_def np_add_def np_binop_def scale_def)
qed

lemma np_sub_same_length:
  assumes "length f = length s"
  shows "np_sub ar f s = Inr (map2 (diff_bin ar) f s)"
proof -
  have "fsub ar = diff_bin ar"
    by (intro ext) (simp add: fsub_def diff_bin_def)
  then show ?thesis
    using assms by (simp add: np_sub_def np_binop_def)
qed

lemma window_max_bins:
  assumes "window_max ar (Some f) (Some s) (n div 8) (n div 2) = Inr m"
  shows "0 \<le> n \<and> (\<exists>data. np_sub ar f s = Inr data \<and> is_max_over_bins data (n div 8) (n div 2) m)"
proof -
  from assms obtain data where data: "np_sub ar f s = Inr data"
    and m: "np_max (py_slice data (n div 8) (n div 2)) = Inr m"
    by (auto simp: window_max_def split: sum.splits)
  have n: "0 \<le> n"
  proof (rule ccontr)
    assume "\<not> 0 \<le> n"
    then have "py_slice data (n div 8) (n div 2) = []"
      using py_slice_negative_empty [of n data] by simp
    with m show False by simp
  qed
  then have "0 \<le> n div 8" "0 \<le> n div 2" by simp_all
  from np_max_py_slice_bins [OF m this] data n show ?thesis by blast
qed

lemma window_max_bins_peek:
  assumes "window_max ar (Some f) (Some s) (n div 2) n = Inr m" "0 \<le> n"
  shows "\<exists>data. np_sub ar f s = Inr data \<and> is_max_over_bins data (n div 2) n m"
proof -
  from assms obtain data where data: "np_sub ar f s = Inr data"
    and m: "np_max (py_slice data (n div 2) n) = Inr m"
    by (auto simp: window_max_def split: sum.splits)
  have "0 \<le> n div 2" using assms(2) by simp
  from np_max_py_slice_bins [OF m this assms(2)] data show ?thesis by blast
qed

subsection \<open>Outcomes that depend on lengths only\<close>

lemma np_binop_Inl_lengths:
  assumes "length xs = length xs'" "length ys = length ys'"
  shows "np_binop f xs ys = Inl e \<longleftrightarrow> np_binop g xs' ys' = Inl e"
  using assms by (simp add: np_binop_def)

lemma np_binop_Inr_lengths:
  assumes "length xs = length xs'" "length ys = length ys'"
    and "np_binop f xs ys = Inr zs" "np_binop g xs' ys' = Inr zs'"
  shows "length zs = length zs'"
  using assms by (auto simp: np_binop_def split: if_splits)

lemma ema_Inl_coefficient: "ema ar avg x a = Inl e \<longleftrightarrow> ema ar avg x b = Inl e"
  by (cases avg) (simp_all add: ema_def np_add_def scale_def np_binop_def)

lemma ema_Inr_coefficient:
  assumes "ema ar avg x a = Inr s" "ema ar avg x b = Inr s'"
  shows "length s = length s'"
proof (cases avg)
  case None
  with assms show ?thesis by (simp add: ema_def)
next
  case (Some v)
  have "length (scale ar v (fsub ar 1 a)) = length (scale ar v (fsub ar 1 b))"
    "length (scale ar x a) = length (scale ar x b)"
    by (simp_all add: scale_def)
  from np_binop_Inr_lengths [OF this] assms Some show ?thesis
    by (simp add: ema_def np_add_def)
qed

lemma window_max_Inl_lengths:
  assumes "length s = length s'"
  shows "window_max ar f (Some s) a b = Inl e \<longleftrightarrow> window_max ar f (Some s') a b = Inl e"
proof (cases f)
  case None
  then show ?thesis by (simp add: window_max_def)
next
  case (Some v)
  have len: "length v = length v" by simp
  show ?thesis
  proof (cases "np_sub ar v s")
    case (Inl e1)
    then have "np_sub ar v s' = Inl e1"
      using np_binop_Inl_lengths [OF len assms, of "fsub ar" e1 "fsub ar"] by (simp add: np_sub_def)
    with Inl Some show ?thesis by (simp add: window_max_def)
  next
    case (Inr data)
    show ?thesis
    proof (cases "np_sub ar v s'")
      case (Inl e1)
      then have "np_sub ar v s = Inl e1"
        using np_binop_Inl_lengths [OF len assms, of "fsub ar" e1 "fsub ar"] by (simp add: np_sub_def)
      with Inr show ?thesis by simp
    next
      case Inr': (Inr data')
      have "length data = length data'"
        using np_binop_Inr_lengths [OF len assms, of "fsub ar" data "fsub ar" data'] Inr Inr'
        by (simp add: np_sub_def)
      then have "py_slice data a b = [] \<longleftrightarrow> py_slice data' a b = []"
        using length_py_slice [of data a b] length_py_slice [of data' a b]
        by (metis length_0_conv)
      then show ?thesis
        using Some Inr Inr' by (simp add: window_max_def np_max_Inl_iff)
    qed
  qed
qed

lemma presence_sensing_status_independent:
  "snd (presence_sensing ar (d\<lparr>presence_status := b\<rparr>) fn) = snd (presence_sensing ar d fn)
   \<and> (\<exists>s p. fst (presence_sensing ar (d\<lparr>presence_status := b\<rparr>) fn)
               = (fst (presence_sensing ar d fn))\<lparr>slow_avg := s, presence_status := p\<rparr>)"
proof -
  let ?a = "if \<not> presence_status d then alpha_med d else alpha_slow d"
  let ?a' = "if \<not> b then alpha_med d else alpha_slow d"
  show ?thesis
  proof (cases "ema ar (slow_avg d) fn ?a")
    case (Inl e)
    then have "ema ar (slow_avg d) fn ?a' = Inl e"
      using ema_Inl_coefficient [of ar "slow_avg d" fn ?a e ?a'] by simp
    with Inl have "presence_sensing ar d fn = (d, Inl e)"
      "presence_sensing ar (d\<lparr>presence_status := b\<rparr>) fn = (d\<lparr>presence_status := b\<rparr>, Inl e)"
      by (auto simp: presence_sensing_def)
    then show ?thesis
      by simp (rule exI [of _ "slow_avg d"], rule exI [of _ b], simp)
  next
    case (Inr s)
    then obtain s' where s': "ema ar (slow_avg d) fn ?a' = Inr s'"
      using ema_Inl_coefficient [of ar "slow_avg d" fn ?a' _ ?a] by (cases "ema ar (slow_avg d) fn ?a'") auto
    have len: "length s = length s'"
      using ema_Inr_coefficient [OF Inr s'] .
    show ?thesis
    proof (cases "ema ar (fast_avg d) fn (alpha_fast d)")
      case (Inl e)
      with Inr s' have "presence_sensing ar d fn = (d\<lparr>slow_avg := Some s\<rparr>, Inl e)"
        "presence_sensing ar (d\<lparr>presence_status := b\<rparr>) fn
           = (d\<lparr>presence_status := b, slow_avg := Some s'\<rparr>, Inl e)"
        by (auto simp: presence_sensing_def)
      then show ?thesis
        by simp (rule exI [of _ "Some s'"], rule exI [of _ b], simp)
    next
      case f: (Inr f)
      let ?ds = "detect_start_sample d" and ?de = "detect_end_sample d"
      show ?thesis
      proof (cases "window_max ar (Some f) (Some s) ?ds ?de")
        case (Inl e)
        then have "window_max ar (Some f) (Some s') ?ds ?de = Inl e"
          using window_max_Inl_lengths [OF len] by simp
        with Inl Inr s' f have "presence_sensing ar d fn
             = (d\<lparr>slow_avg := Some s, fast_avg := Some f\<rparr>, Inl e)"
          "presence_sensing ar (d\<lparr>presence_status := b\<rparr>) fn
             = (d\<lparr>presence_status := b, slow_avg := Some s', fast_avg := Some f\<rparr>, Inl e)"
          by (auto simp: presence_sensing_def)
        then show ?thesis
          by simp (rule exI [of _ "Some s'"], rule exI [of _ b], simp)
      next
        case m: (Inr m)
        then obtain m' where m': "window_max ar (Some f) (Some s') ?ds ?de = Inr m'"
          using window_max_Inl_lengths [OF len, of ar "Some f" ?ds ?de]
          by (cases "window_max ar (Some f) (Some s') ?ds ?de") auto
        from m m' Inr s' f have "presence_sensing ar d fn
             = (d\<lparr>slow_avg := Some s, fast_avg := Some f,
                  presence_status := (threshold_presence d < m)\<rparr>, Inr ())"
          "presence_sensing ar (d\<lparr>presence_status := b\<rparr>) fn
             = (d\<lparr>slow_avg := Some s', fast_avg := Some f,
                  presence_status := (threshold_presence d < m')\<rparr>, Inr ())"
          by (auto simp: presence_sensing_def)
        then show ?thesis
          by simp (rule exI [of _ "Some s'"], rule exI [of _ "threshold_presence d < m'"], simp)
      qed
    qed
  qed
qed

lemma peeking_sensing_update:
  "peeking_sensing ar (d\<lparr>slow_avg := s, presence_status := p\<rparr>) fn
     = ((fst (peeking_sensing ar d fn))\<lparr>slow_avg := s, presence_status := p\<rparr>,
        snd (peeking_sensing ar d fn))"
  by (simp add: peeking_sensing_def Let_def split: sum.splits)

lemma initialize_averages_update:
  "initialize_averages (d\<lparr>presence_status := b\<rparr>) fn
     = (initialize_averages d fn)\<lparr>presence_status := b\<rparr>"
  by (simp add: initialize_averages_def)

subsection \<open>Spectra of one length\<close>

lemma presence_fields:
  "detect_start_sample (fst (presence ar fft d mat)) = detect_start_sample d"
  "detect_end_sample (fst (presence ar fft d mat)) = detect_end_sample d"
  "peek_start_sample (fst (presence ar fft d mat)) = peek_start_sample d"
  "peek_end_sample (fst (presence ar fft d mat)) = peek_end_sample d"
  "range_window (fst (presence ar fft d mat)) = range_window d"
  using presence_constants [of ar fft d mat] by (simp_all add: constants_def)

lemma length_foldl_map2:
  assumes "length acc = n" "\<forall>x \<in> set xs. length x = n"
  shows "length (foldl (\<lambda>acc x. map2 f acc x) acc xs) = n"
  using assms by (induction xs arbitrary: acc) simp_all

lemma length_sum_axis0:
  assumes "\<forall>r \<in> set (rows a). length r = ncols a"
  shows "length (sum_axis0 ar a) = ncols a"
proof (cases "rows a")
  case Nil
  then show ?thesis by (simp add: sum_axis0_def)
next
  case (Cons r rs)
  with assms have "length r = ncols a" "\<forall>x \<in> set rs. length x = ncols a" by simp_all
  from length_foldl_map2 [OF this] Cons show ?thesis by (simp add: sum_axis0_def)
qed

lemma length_fft_norm_of:
  assumes "fft_norm_of ar d rf = Inr fn" "ncols rf = n" "\<forall>r \<in> set (rows rf). length r = n"
  shows "length fn = n"
proof -
  have "\<forall>r \<in> set (rows (abs_array2 ar rf)). length r = ncols (abs_array2 ar rf)"
    using assms(2,3) by (simp add: abs_array2_def)
  from length_sum_axis0 [OF this] have "length (sum_axis0 ar (abs_array2 ar rf)) = n"
    using assms(2) by (simp add: abs_array2_def)
  with assms(1) show ?thesis
    by (auto simp: fft_norm_of_def np_divide_def split: if_splits)
qed

lemma window_max_same_length:
  assumes "length f = n" "length s = n" "slice_bound a n < slice_bound b n"
  shows "\<exists>m. window_max ar (Some f) (Some s) a b = Inr m"
proof -
  have sub: "np_sub ar f s = Inr (map2 (diff_bin ar) f s)"
    using assms(1,2) by (simp add: np_sub_same_length)
  have "length (py_slice (map2 (diff_bin ar) f s) a b) = slice_bound b n - slice_bound a n"
    using assms(1,2) by (simp add: length_py_slice)
  then have "py_slice (map2 (diff_bin ar) f s) a b \<noteq> []"
    using assms(3) by auto
  then obtain m where "np_max (py_slice (map2 (diff_bin ar) f s) a b) = Inr m"
    by (cases "py_slice (map2 (diff_bin ar) f s) a b") auto
  with sub show ?thesis by (simp add: window_max_def)
qed

lemma windows_not_empty:
  assumes "2 \<le> N"
  shows "slice_bound (N div 8) (nat N) < slice_bound (N div 2) (nat N)"
    "slice_bound (N div 2) (nat N) < slice_bound N (nat N)"
  using assms unfolding slice_bound_def by auto

lemma presence_sensing_same_length:
  assumes avgs: "slow_avg d = Some a" "fast_avg d = Some b"
    and lens: "length a = n" "length b = n" "length fn = n"
    and detect: "slice_bound (detect_start_sample d) n < slice_bound (detect_end_sample d) n"
  shows "\<exists>s f m. presence_sensing ar d fn
                   = (d\<lparr>slow_avg := Some s, fast_avg := Some f,
                        presence_status := (threshold_presence d < m)\<rparr>, Inr ())
               \<and> length s = n \<and> length f = n"
proof -
  let ?ap = "if presence_status d then alpha_slow d else alpha_med d"
  have s: "ema ar (slow_avg d) fn ?ap = Inr (map2 (ema_bin ar ?ap) a fn)"
    unfolding avgs using lens by (intro ema_same_length) simp
  have f: "ema ar (fast_avg d) fn (alpha_fast d) = Inr (map2 (ema_bin ar (alpha_fast d)) b fn)"
    unfolding avgs using lens by (intro ema_same_length) simp
  have ls: "length (map2 (ema_bin ar ?ap) a fn) = n"
    and lf: "length (map2 (ema_bin ar (alpha_fast d)) b fn) = n"
    using lens by simp_all
  from window_max_same_length [OF lf ls detect] obtain m where
    m: "window_max ar (Some (map2 (ema_bin ar (alpha_fast d)) b fn))
          (Some (map2 (ema_bin ar ?ap) a fn)) (detect_start_sample d) (detect_end_sample d) = Inr m"
    by blast
  obtain d2 r where ps: "presence_sensing ar d fn = (d2, r)"
    by (cases "presence_sensing ar d fn")
  show ?thesis
  proof (cases r)
    case (Inl e)
    with ps have "presence_sensing ar d fn = (d2, Inl e)" by simp
    from presence_sensing_Inl [OF this] s f m have False by auto
    then show ?thesis ..
  next
    case (Inr u)
    with ps have "presence_sensing ar d fn = (d2, Inr u)" by simp
    from presence_sensing_Inr [OF this] obtain s' f' m' where
      s': "ema ar (slow_avg d) fn (if \<not> presence_status d then alpha_med d else alpha_slow d)
             = Inr s'"
      and f': "ema ar (fast_avg d) fn (alpha_fast d) = Inr f'"
      and d2: "d2 = d\<lparr>slow_avg := Some s', fast_avg := Some f',
                        presence_status := (threshold_presence d < m')\<rparr>"
      by blast
    have "(if \<not> presence_status d then alpha_med d else alpha_slow d) = ?ap" by simp
    with s' s have "s' = map2 (ema_bin ar ?ap) a fn" by simp
    moreover from f' f have "f' = map2 (ema_bin ar (alpha_fast d)) b fn" by simp
    ultimately have "length s' = n" "length f' = n" using ls lf by simp_all
    with ps Inr d2 show ?thesis by auto
  qed
qed

lemma peeking_sensing_same_length:
  assumes avgs: "slow_peek_avg d = Some c" "fast_avg d = Some b"
    and lens: "length c = n" "length b = n" "length fn = n"
    and peek: "slice_bound (peek_start_sample d) n < slice_bound (peek_end_sample d) n"
  shows "\<exists>sp mp. peeking_sensing ar d fn
                   = (d\<lparr>slow_peek_avg := Some sp,
                        peeking_status := (threshold_peeking d < mp)\<rparr>, Inr ())
               \<and> length sp = n"
proof -
  let ?aq = "if peeking_status d then alpha_slow d else alpha_med d"
  have sp: "ema ar (slow_peek_avg d) fn ?aq = Inr (map2 (ema_bin ar ?aq) c fn)"
    unfolding avgs using lens by (intro ema_same_length) simp
  have lsp: "length (map2 (ema_bin ar ?aq) c fn) = n"
    using lens by simp
  from window_max_same_length [OF lens(2) lsp peek] obtain mp where
    mp: "window_max ar (fast_avg d) (Some (map2 (ema_bin ar ?aq) c fn))
           (peek_start_sample d) (peek_end_sample d) = Inr mp"
    unfolding avgs by blast
  obtain d3 r where pk: "peeking_sensing ar d fn = (d3, r)"
    by (cases "peeking_sensing ar d fn")
  show ?thesis
  proof (cases r)
    case (Inl e)
    with pk have "peeking_sensing ar d fn = (d3, Inl e)" by simp
    from peeking_sensing_Inl [OF this] sp mp have False by auto
    then show ?thesis ..
  next
    case (Inr u)
    with pk have "peeking_sensing ar d fn = (d3, Inr u)" by simp
    from peeking_sensing_Inr [OF this] obtain sp' mp' where
      sp': "ema ar (slow_peek_avg d) fn (if \<not> peeking_status d then alpha_med d else alpha_slow d)
              = Inr sp'"
      and d3: "d3 = d\<lparr>slow_peek_avg := Some sp',
                        peeking_status := (threshold_peeking d < mp')\<rparr>"
      by blast
    have "(if \<not> peeking_status d then alpha_med d else alpha_slow d) = ?aq" by simp
    with sp' sp have "sp' = map2 (ema_bin ar ?aq) c fn" by simp
    then have "length sp' = n" using lsp by simp
    with pk Inr d3 show ?thesis by auto
  qed
qed

lemma sense_same_length:
  assumes len: "length fn = n"
    and inv: "averages_of_length n d"
    and detect: "slice_bound (detect_start_sample d) n < slice_bound (detect_end_sample d) n"
    and peek: "slice_bound (peek_start_sample d) n < slice_bound (peek_end_sample d) n"
  shows "\<exists>d' p q. sense ar d fn = (d', Inr (p, q)) \<and> averages_of_length n d'"
proof -
  define d1 where "d1 = initialize_averages d fn"
  from inv len obtain a b c where
    avgs: "slow_avg d1 = Some a" "fast_avg d1 = Some b" "slow_peek_avg d1 = Some c"
    and lens: "length a = n" "length b = n" "length c = n"
    unfolding d1_def averages_of_length_def initialize_averages_def
    by (cases "first_run d") auto
  have detect1: "slice_bound (detect_start_sample d1) n < slice_bound (detect_end_sample d1) n"
    and peek1: "slice_bound (peek_start_sample d1) n < slice_bound (peek_end_sample d1) n"
    and nf: "\<not> first_run d1"
    using detect peek by (simp_all add: d1_def)
  from presence_sensing_same_length [OF avgs(1,2) lens(1,2) len detect1]
  obtain s f m where
    ps: "presence_sensing ar d1 fn
           = (d1\<lparr>slow_avg := Some s, fast_avg := Some f,
                 presence_status := (threshold_presence d1 < m)\<rparr>, Inr ())"
    and ls: "length s = n" and lf: "length f = n"
    by blast
  define d2 where "d2 = d1\<lparr>slow_avg := Some s, fast_avg := Some f,
                            presence_status := (threshold_presence d1 < m)\<rparr>"
  have avgs2: "slow_peek_avg d2 = Some c" "fast_avg d2 = Some f" "slow_avg d2 = Some s"
    and peek2: "slice_bound (peek_start_sample d2) n < slice_bound (peek_end_sample d2) n"
    and nf2: "\<not> first_run d2"
    using avgs peek1 nf by (simp_all add: d2_def)
  from peeking_sensing_same_length [OF avgs2(1,2) lens(3) lf len peek2]
  obtain sp mp where
    pk: "peeking_sensing ar d2 fn
           = (d2\<lparr>slow_peek_avg := Some sp,
                 peeking_status := (threshold_peeking d2 < mp)\<rparr>, Inr ())"
    and lsp: "length sp = n"
    by blast
  define d3 where "d3 = d2\<lparr>slow_peek_avg := Some sp,
                            peeking_status := (threshold_peeking d2 < mp)\<rparr>"
  have "sense ar d fn = (d3, Inr (presence_status d3, peeking_status d3))"
    using ps pk unfolding sense_def d1_def [symmetric] d2_def [symmetric] d3_def [symmetric]
    by simp
  moreover have "averages_of_length n d3"
    using avgs2 ls lf lsp nf2 by (simp add: averages_of_length_def d3_def)
  ultimately show ?thesis by blast
qed

lemma presence_same_length:
  assumes shape: "keeps_shape fft (range_window d) n"
    and inv: "averages_of_length n d"
    and detect: "slice_bound (detect_start_sample d) n < slice_bound (detect_end_sample d) n"
    and peek: "slice_bound (peek_start_sample d) n < slice_bound (peek_end_sample d) n"
  shows "(\<exists>d' p q. presence ar fft d mat = (d', Inr (p, q)) \<and> averages_of_length n d')
       \<or> (\<exists>e. presence ar fft d mat = (d, Inl e)
              \<and> (fft mat (range_window d) = Inl e
                  \<or> (\<exists>rf. fft mat (range_window d) = Inr rf \<and> fft_norm_of ar d rf = Inl e)))"
proof (cases "fft mat (range_window d)")
  case (Inl e)
  then show ?thesis by (simp add: presence_def)
next
  case (Inr rf)
  with shape have rf: "ncols rf = n" "\<forall>r \<in> set (rows rf). length r = n"
    by (auto simp: keeps_shape_def)
  show ?thesis
  proof (cases "fft_norm_of ar d rf")
    case (Inl e)
    with Inr show ?thesis by (simp add: presence_def)
  next
    case fn: (Inr fn)
    from length_fft_norm_of [OF fn rf] have "length fn = n" .
    from sense_same_length [OF this inv detect peek] Inr fn show ?thesis
      by (simp add: presence_def)
  qed
qed

lemma run_frames_same_length:
  assumes "keeps_shape fft (range_window d) n"
    and "averages_of_length n d"
    and "slice_bound (detect_start_sample d) n < slice_bound (detect_end_sample d) n"
    and "slice_bound (peek_start_sample d) n < slice_bound (peek_end_sample d) n"
  shows "averages_of_length n (run_frames ar fft d mats)"
  using assms
proof (induction mats arbitrary: d)
  case Nil
  then show ?case by simp
next
  case (Cons mat mats)
  let ?d' = "fst (presence ar fft d mat)"
  from presence_same_length [OF Cons.prems, of ar mat]
  have "averages_of_length n ?d'"
    using Cons.prems(2) by auto
  moreover have "keeps_shape fft (range_window ?d') n"
    "slice_bound (detect_start_sample ?d') n < slice_bound (detect_end_sample ?d') n"
    "slice_bound (peek_start_sample ?d') n < slice_bound (peek_end_sample ?d') n"
    using Cons.prems by (simp_all add: presence_fields)
  ultimately have "averages_of_length n (run_frames ar fft ?d' mats)"
    by (intro Cons.IH)
  then show ?case by simp
qed

subsection \<open>Frames of zeros\<close>

lemma length_bh_window [simp]: "length (bh_window n) = n"
  by (simp add: bh_window_def)

lemma dft_row_zero: "dft_row (replicate n 0) = replicate n 0"
proof -
  have "map (\<lambda>j. complex_of_real (replicate n 0 ! j) * cis (- (2 * pi * real k * real j / real n)))
            [0..<n] = map (\<lambda>j. 0) [0..<n]" for k
    by (rule map_cong) simp_all
  then show ?thesis
    by (simp add: dft_row_def map_replicate_const sum_list_replicate)
qed

lemma map2_times_zero:
  "length w = n \<Longrightarrow> map2 (*) (replicate n (0::real)) w = replicate n 0"
  by (simp add: zip_replicate1 map_replicate_const comp_def)

lemma fft_spectrum_spec_zero:
  assumes "length w = n"
  shows "fft_spectrum_spec (zero_frame k n) w = Inr (zero_spectrum k n)"
  using assms
  by (simp add: fft_spectrum_spec_def zero_frame_def zero_spectrum_def
                map2_times_zero dft_row_zero map_replicate_const)

lemma fft_spectrum_spec_keeps_shape: "keeps_shape fft_spectrum_spec w (length w)"
  by (auto simp: keeps_shape_def fft_spectrum_spec_def dft_row_def split: if_splits)

lemma samples_as_spectrum_zero:
  "length w = n \<Longrightarrow> samples_as_spectrum (zero_frame k n) w = Inr (zero_spectrum k n)"
  by (simp add: samples_as_spectrum_def zero_frame_def zero_spectrum_def map_replicate_const)

lemma keeps_zero_exact [simp]: "keeps_zero exact"
  by (simp add: keeps_zero_def)

lemma foldl_zero_rows:
  assumes "rnd ar 0 = 0"
  shows "foldl (\<lambda>acc x. map2 (fadd ar) acc x) (replicate n 0) (replicate k (replicate n 0))
           = replicate n 0"
  using assms by (induction k) (simp_all add: zip_replicate fadd_def)

lemma sum_axis0_zero:
  assumes "keeps_zero ar"
  shows "sum_axis0 ar (abs_array2 ar (zero_spectrum k n)) = replicate n 0"
proof (cases k)
  case 0
  then show ?thesis by (simp add: sum_axis0_def abs_array2_def zero_spectrum_def)
next
  case (Suc j)
  from assms have z: "rnd ar 0 = 0" "cabs ar 0 = 0" by (simp_all add: keeps_zero_def)
  show ?thesis
    using Suc z foldl_zero_rows [OF z(1), of n j]
    by (simp add: sum_axis0_def abs_array2_def zero_spectrum_def)
qed

lemma fft_norm_of_zero:
  assumes "keeps_zero ar" "num_chirps_per_frame d \<noteq> 0"
    "\<bar>num_chirps_per_frame d\<bar> < 2 ^ 1024 - 2 ^ 970"
  shows "fft_norm_of ar d (zero_spectrum k n) = Inr (replicate n 0)"
proof -
  from assms(1) have z: "rnd ar 0 = 0" by (simp add: keeps_zero_def)
  show ?thesis
    using assms(2,3) z
    by (simp add: fft_norm_of_def sum_axis0_zero [OF assms(1)] np_divide_def fdiv_def)
qed

lemma ema_zero:
  assumes "rnd ar 0 = 0"
  shows "ema ar (Some (replicate n 0)) (replicate n 0) a = Inr (replicate n 0)"
  using assms
  by (simp add: ema_def scale_def np_add_def np_binop_def zip_replicate fadd_def fmul_def)

lemma window_max_zero:
  assumes "rnd ar 0 = 0" "slice_bound a n < slice_bound b n"
  shows "window_max ar (Some (replicate n 0)) (Some (replicate n 0)) a b = Inr 0"
  using assms
  by (simp add: window_max_def np_sub_def np_binop_def zip_replicate py_slice_replicate
                np_max_replicate fsub_def)

lemma window_max_zero_empty:
  assumes "rnd ar 0 = 0" "slice_bound b n \<le> slice_bound a n"
  shows "window_max ar (Some (replicate n 0)) (Some (replicate n 0)) a b = Inl ValueError"
  using assms
  by (simp add: window_max_def np_sub_def np_binop_def zip_replicate py_slice_replicate
                fsub_def)

lemma sense_zero:
  assumes zero: "rnd ar 0 = 0"
    and first: "first_run d"
    and detect: "slice_bound (detect_start_sample d) n < slice_bound (detect_end_sample d) n"
    and peek: "slice_bound (peek_start_sample d) n < slice_bound (peek_end_sample d) n"
  shows "sense ar d (replicate n 0) =
           (d\<lparr>slow_avg := Some (replicate n 0), fast_avg := Some (replicate n 0),
               slow_peek_avg := Some (replicate n 0), first_run := False,
               presence_status := (threshold_presence d < 0),
               peeking_status := (threshold_peeking d < 0)\<rparr>,
            Inr (threshold_presence d < 0, threshold_peeking d < 0))"
  using first detect peek
  by (simp add: sense_def initialize_averages_def presence_sensing_def
                peeking_sensing_def ema_zero [OF zero] window_max_zero [OF zero] Let_def)

lemma sense_zero_empty_detect:
  assumes zero: "rnd ar 0 = 0"
    and first: "first_run d"
    and detect: "slice_bound (detect_end_sample d) n \<le> slice_bound (detect_start_sample d) n"
  shows "sense ar d (replicate n 0) =
           (d\<lparr>slow_avg := Some (replicate n 0), fast_avg := Some (replicate n 0),
               slow_peek_avg := Some (replicate n 0), first_run := False\<rparr>,
            Inl ValueError)"
  using first detect
  by (simp add: sense_def initialize_averages_def presence_sensing_def
                ema_zero [OF zero] window_max_zero_empty [OF zero] Let_def)

lemma presence_zero_spectrum:
  assumes kz: "keeps_zero ar"
    and helper: "fft mat (range_window d) = Inr (zero_spectrum k n)"
    and chirps: "num_chirps_per_frame d \<noteq> 0" "\<bar>num_chirps_per_frame d\<bar> < 2 ^ 1024 - 2 ^ 970"
    and first: "first_run d"
    and detect: "slice_bound (detect_start_sample d) n < slice_bound (detect_end_sample d) n"
    and peek: "slice_bound (peek_start_sample d) n < slice_bound (peek_end_sample d) n"
  shows "presence ar fft d mat =
           (d\<lparr>slow_avg := Some (replicate n 0), fast_avg := Some (replicate n 0),
               slow_peek_avg := Some (replicate n 0), first_run := False,
               presence_status := (threshold_presence d < 0),
               peeking_status := (threshold_peeking d < 0)\<rparr>,
            Inr (threshold_presence d < 0, threshold_peeking d < 0))"
proof -
  from kz have zero: "rnd ar 0 = 0" by (simp add: keeps_zero_def)
  show ?thesis
    using helper fft_norm_of_zero [OF kz chirps, of k n] sense_zero [OF zero first detect peek]
    by (simp add: presence_def)
qed

lemma presence_zero_spectrum_empty_detect:
  assumes kz: "keeps_zero ar"
    and helper: "fft mat (range_window d) = Inr (zero_spectrum k n)"
    and chirps: "num_chirps_per_frame d \<noteq> 0" "\<bar>num_chirps_per_frame d\<bar> < 2 ^ 1024 - 2 ^ 970"
    and first: "first_run d"
    and detect: "slice_bound (detect_end_sample d) n \<le> slice_bound (detect_start_sample d) n"
  shows "presence ar fft d mat =
           (d\<lparr>slow_avg := Some (replicate n 0), fast_avg := Some (replicate n 0),
               slow_peek_avg := Some (replicate n 0), first_run := False\<rparr>,
            Inl ValueError)"
proof -
  from kz have zero: "rnd ar 0 = 0" by (simp add: keeps_zero_def)
  show ?thesis
    using helper fft_norm_of_zero [OF kz chirps, of k n] sense_zero_empty_detect [OF zero first detect]
    by (simp add: presence_def)
qed

subsection \<open>The worked runs, evaluated\<close>

lemmas evaluation_defs =
  presence_def sense_def fft_norm_of_def abs_array2_def sum_axis0_def np_divide_def
  initialize_averages_def presence_sensing_def peeking_sensing_def ema_def scale_def
  np_add_def np_sub_def np_binop_def window_max_def py_slice_def slice_bound_def
  fadd_def fsub_def fmul_def fdiv_def Let_def

lemma init_spec:
  "0 \<le> n \<Longrightarrow>
   PresenceAntiPeekingAlgo_init ar blackmanharris_spec w2 n c
     = Inr (new_detector ar n c (bh_window (nat n)))"
  by (simp add: PresenceAntiPeekingAlgo_init_def blackmanharris_spec_def)

lemma init_2_1:
  "PresenceAntiPeekingAlgo_init exact blackmanharris_spec blackmanharris_spec 2 1
     = Inr (new_detector exact 2 1 (bh_window 2))"
  by (simp add: init_spec)

lemma init_2_2:
  "PresenceAntiPeekingAlgo_init exact blackmanharris_spec blackmanharris_spec 2 2
     = Inr (new_detector exact 2 2 (bh_window 2))"
  by (simp add: init_spec)

lemma init_8:
  "PresenceAntiPeekingAlgo_init exact blackmanharris_spec blackmanharris_spec 8 c
     = Inr (new_detector exact 8 c (bh_window 8))"
  by (simp add: init_spec)

lemma zero_frame_on_fresh:
  assumes helper: "fft (zero_frame k n) w = Inr (zero_spectrum k n)"
    and chirps: "c \<noteq> 0" "\<bar>c\<bar> < 2 ^ 1024 - 2 ^ 970"
    and size: "2 \<le> N" "n = nat N"
  shows "presence exact fft (new_detector exact N c w) (zero_frame k n)
           = ((new_detector exact N c w)
                \<lparr>slow_avg := Some (replicate n 0), fast_avg := Some (replicate n 0),
                 slow_peek_avg := Some (replicate n 0), first_run := False\<rparr>,
              Inr (False, False))"
proof -
  let ?d = "new_detector exact N c w"
  have h: "fft (zero_frame k n) (range_window ?d) = Inr (zero_spectrum k n)"
    using helper by simp
  have c: "num_chirps_per_frame ?d \<noteq> 0" "\<bar>num_chirps_per_frame ?d\<bar> < 2 ^ 1024 - 2 ^ 970"
    using chirps by simp_all
  have f: "first_run ?d" by simp
  have detect: "slice_bound (detect_start_sample ?d) n < slice_bound (detect_end_sample ?d) n"
    and peek: "slice_bound (peek_start_sample ?d) n < slice_bound (peek_end_sample ?d) n"
    using windows_not_empty [OF size(1)] size(2) by simp_all
  show ?thesis
    by (subst presence_zero_spectrum
              [where fft = fft and mat = "zero_frame k n" and d = ?d and k = k and n = n,
               OF keeps_zero_exact h c f detect peek]) simp
qed

lemma settled_2_1_run:
  "settled_2_1
     = run_frames exact samples_as_spectrum (new_detector exact 2 1 (bh_window 2)) [zero_frame 1 2]"
proof -
  have "presence exact samples_as_spectrum (new_detector exact 2 1 (bh_window 2)) (zero_frame 1 2)
          = (settled_2_1, Inr (False, False))"
    by (subst zero_frame_on_fresh [where N = 2])
       (simp_all add: samples_as_spectrum_zero settled_2_1_def numeral_2_eq_2)
  then show ?thesis by simp
qed

lemma both_on_settled:
  "presence exact samples_as_spectrum settled_2_1 both_frame = (both_2_1, Inr (True, True))"
  by (simp add: settled_2_1_def both_2_1_def both_frame_def samples_as_spectrum_def
                evaluation_defs)

lemma settled_2_2_run:
  "settled_2_2
     = run_frames exact samples_as_spectrum (new_detector exact 2 2 (bh_window 2)) [zero_frame 2 2]"
proof -
  have "presence exact samples_as_spectrum (new_detector exact 2 2 (bh_window 2)) (zero_frame 2 2)
          = (settled_2_2, Inr (False, False))"
    by (subst zero_frame_on_fresh [where N = 2])
       (simp_all add: samples_as_spectrum_zero settled_2_2_def numeral_2_eq_2)
  then show ?thesis by simp
qed

lemma spike_on_settled:
  "presence exact samples_as_spectrum settled_2_2 spike_frame = (occupied_2_2, Inr (True, False))"
  by (simp add: settled_2_2_def occupied_2_2_def spike_frame_def samples_as_spectrum_def
                evaluation_defs)

lemma occupied_2_2_run:
  "occupied_2_2
     = run_frames exact samples_as_spectrum (new_detector exact 2 2 (bh_window 2))
         [zero_frame 2 2, spike_frame]"
  using settled_2_2_run spike_on_settled by simp

lemma spike_on_occupied:
  "presence exact samples_as_spectrum occupied_2_2 spike_frame
     = (occupied_twice_2_2, Inr (True, False))"
  by (simp add: occupied_2_2_def occupied_twice_2_2_def spike_frame_def samples_as_spectrum_def
                evaluation_defs)

lemma settled_8_run:
  assumes "fft (zero_frame k 8) (bh_window 8) = Inr (zero_spectrum k 8)"
    and "c \<noteq> 0" "\<bar>c\<bar> < 2 ^ 1024 - 2 ^ 970"
  shows "settled_8 c = run_frames exact fft (new_detector exact 8 c (bh_window 8)) [zero_frame k 8]"
proof -
  have "presence exact fft (new_detector exact 8 c (bh_window 8)) (zero_frame k 8)
          = (settled_8 c, Inr (False, False))"
    using assms
    by (subst zero_frame_on_fresh [where N = 8]) (simp_all add: settled_8_def)
  then show ?thesis by simp
qed

lemma near_on_settled_8:
  "presence exact samples_as_spectrum (settled_8 1) near_frame_8 = (near_8_1, Inr (True, False))"
  by (simp add: settled_8_def near_8_1_def near_frame_8_def samples_as_spectrum_def
                evaluation_defs eval_nat_numeral)

lemma single_sample_first_frame:
  assumes "c \<noteq> 0" "\<bar>c\<bar> < 2 ^ 1024 - 2 ^ 970"
  shows "presence exact fft_spectrum_spec (new_detector exact 1 c (bh_window 1)) (zero_frame k 1)
     = ((new_detector exact 1 c (bh_window 1))
          \<lparr>slow_avg := Some [0], fast_avg := Some [0], slow_peek_avg := Some [0],
           first_run := False\<rparr>,
        Inl ValueError)"
proof -
  let ?d = "new_detector exact 1 c (bh_window 1)"
  have h: "fft_spectrum_spec (zero_frame k 1) (range_window ?d) = Inr (zero_spectrum k 1)"
    by (simp add: fft_spectrum_spec_zero)
  have c: "num_chirps_per_frame ?d \<noteq> 0" "\<bar>num_chirps_per_frame ?d\<bar> < 2 ^ 1024 - 2 ^ 970"
    using assms by simp_all
  have f: "first_run ?d" by simp
  have detect: "slice_bound (detect_end_sample ?d) 1 \<le> slice_bound (detect_start_sample ?d) 1"
    by (simp add: slice_bound_def)
  show ?thesis
    by (subst presence_zero_spectrum_empty_detect
              [where fft = fft_spectrum_spec and mat = "zero_frame k 1" and d = ?d and k = k
                 and n = 1, OF keeps_zero_exact h c f detect]) simp
qed

lemma checked_fft_spectrum_zero:
  assumes "length w = n"
  shows "checked_fft_spectrum (zero_frame k n) w = Inr (zero_spectrum k n)"
proof -
  have "ncols (zero_frame k n) = length w"
    "\<forall>r \<in> set (rows (zero_frame k n)). length r = ncols (zero_frame k n)"
    using assms by (simp_all add: zero_frame_def)
  then show ?thesis
    by (simp add: checked_fft_spectrum_def fft_spectrum_spec_zero [OF assms])
qed

lemma sense_status_independent:
  "slow_peek_avg (fst (sense ar (d\<lparr>presence_status := b\<rparr>) fn)) = slow_peek_avg (fst (sense ar d fn))
   \<and> peeking_status (fst (sense ar (d\<lparr>presence_status := b\<rparr>) fn))
       = peeking_status (fst (sense ar d fn))
   \<and> fast_avg (fst (sense ar (d\<lparr>presence_status := b\<rparr>) fn)) = fast_avg (fst (sense ar d fn))
   \<and> map_sum id snd (snd (sense ar (d\<lparr>presence_status := b\<rparr>) fn))
       = map_sum id snd (snd (sense ar d fn))"
proof -
  let ?d1 = "initialize_averages d fn"
  obtain d2 r2 where ps: "presence_sensing ar ?d1 fn = (d2, r2)"
    by (cases "presence_sensing ar ?d1 fn")
  from presence_sensing_status_independent [where d = ?d1 and b = b and fn = fn and ar = ar] ps
  obtain s p where
    ps': "presence_sensing ar ((?d1)\<lparr>presence_status := b\<rparr>) fn
            = (d2\<lparr>slow_avg := s, presence_status := p\<rparr>, r2)"
    by (cases "presence_sensing ar ((?d1)\<lparr>presence_status := b\<rparr>) fn") auto
  obtain d3 r3 where pk: "peeking_sensing ar d2 fn = (d3, r3)"
    by (cases "peeking_sensing ar d2 fn")
  have pk': "peeking_sensing ar (d2\<lparr>slow_avg := s, presence_status := p\<rparr>) fn
               = (d3\<lparr>slow_avg := s, presence_status := p\<rparr>, r3)"
    using peeking_sensing_update [where d = d2 and s = s and p = p and fn = fn and ar = ar] pk
    by simp
  have one: "sense ar d fn
      = (case r2 of Inl e \<Rightarrow> (d2, Inl e)
         | Inr u \<Rightarrow> (case r3 of Inl e \<Rightarrow> (d3, Inl e)
                      | Inr u' \<Rightarrow> (d3, Inr (presence_status d3, peeking_status d3))))"
    using ps pk by (simp add: sense_def Let_def split: sum.splits)
  have two: "sense ar (d\<lparr>presence_status := b\<rparr>) fn
      = (case r2 of Inl e \<Rightarrow> (d2\<lparr>slow_avg := s, presence_status := p\<rparr>, Inl e)
         | Inr u \<Rightarrow> (case r3 of Inl e \<Rightarrow> (d3\<lparr>slow_avg := s, presence_status := p\<rparr>, Inl e)
                      | Inr u' \<Rightarrow> (d3\<lparr>slow_avg := s, presence_status := p\<rparr>,
                                    Inr (p, peeking_status d3))))"
    using ps' pk'
    by (simp add: sense_def Let_def initialize_averages_update split: sum.splits)
  show ?thesis
    unfolding one two by (simp split: sum.splits)
qed

section \<open>The claims\<close>

subsection \<open>Frames of the wrong shape\<close>

text \<open>
  Claim C1 as stated fails: \<^verbatim>\<open>presence\<close> has no check of the frame's shape. A detector
  built for two chirps of eight samples is given a frame of one chirp: the call returns
  \<^verbatim>\<open>(False, False)\<close> and the averages are set.
\<close>

theorem wrong_row_count_counterexample:
  "PresenceAntiPeekingAlgo_init exact blackmanharris_spec blackmanharris_spec 8 2
     = Inr (new_detector exact 8 2 (bh_window 8))
   \<and> presence exact fft_spectrum_spec (new_detector exact 8 2 (bh_window 8)) (zero_frame 1 8)
     = ((new_detector exact 8 2 (bh_window 8))
          \<lparr>slow_avg := Some (replicate 8 0), fast_avg := Some (replicate 8 0),
           slow_peek_avg := Some (replicate 8 0), first_run := False\<rparr>,
        Inr (False, False))"
proof -
  have "presence exact fft_spectrum_spec (new_detector exact 8 2 (bh_window 8)) (zero_frame 1 8)
     = ((new_detector exact 8 2 (bh_window 8))
          \<lparr>slow_avg := Some (replicate 8 0), fast_avg := Some (replicate 8 0),
           slow_peek_avg := Some (replicate 8 0), first_run := False\<rparr>,
        Inr (False, False))"
    by (subst zero_frame_on_fresh [where N = 8]) (simp_all add: fft_spectrum_spec_zero)
  with init_8 [of 2] show ?thesis by simp
qed

text \<open>
  Claim C1, as the code has it: the update never inspects the frame's shape. What a call
  does depends on the frame only through what the FFT helper returns for it: two frames for
  which the helper returns the same, whatever their shapes, end in the same state with the
  same result. A call fails with \<^verbatim>\<open>InvalidFrameShape\<close> only when the helper has raised that
  error in this call. And a frame that the helper rejects, with whatever error, makes the
  update fail with the helper's error and leaves the whole state as it was, the three averages
  and both flags included.
\<close>

theorem frame_shape_is_not_checked:
  "(fft mat (range_window d) = fft mat' (range_window d)
      \<longrightarrow> presence ar fft d mat = presence ar fft d mat')
   \<and> (snd (presence ar fft d mat) = Inl InvalidFrameShape
      \<longrightarrow> fft mat (range_window d) = Inl InvalidFrameShape)
   \<and> (fft mat (range_window d) = Inl e \<longrightarrow> presence ar fft d mat = (d, Inl e))"
proof (intro conjI impI)
  assume "fft mat (range_window d) = fft mat' (range_window d)"
  then show "presence ar fft d mat = presence ar fft d mat'"
    by (simp add: presence_def)
next
  assume "snd (presence ar fft d mat) = Inl InvalidFrameShape"
  then have "presence ar fft d mat = (fst (presence ar fft d mat), Inl InvalidFrameShape)"
    by (metis prod.collapse)
  from presence_Inl [OF this]
  show "fft mat (range_window d) = Inl InvalidFrameShape"
  proof (elim disjE exE conjE)
    fix rf
    assume "fft_norm_of ar d rf = Inl InvalidFrameShape"
    from fft_norm_of_error [OF this] show ?thesis by simp
  next
    fix rf fn
    assume "sense ar d fn = (fst (presence ar fft d mat), Inl InvalidFrameShape)"
    from sense_Inl_summary [OF this] show ?thesis by simp
  qed
next
  assume "fft mat (range_window d) = Inl e"
  then show "presence ar fft d mat = (d, Inl e)" by (rule presence_helper_failure)
qed

theorem frame_shape_is_not_checked_witness:
  "settled_8 2
     = run_frames exact checked_fft_spectrum (new_detector exact 8 2 (bh_window 8)) [zero_frame 2 8]
   \<and> slow_avg (settled_8 2) = Some (replicate 8 0)
   \<and> checked_fft_spectrum (zero_frame 2 3) (range_window (settled_8 2)) = Inl InvalidFrameShape
   \<and> checked_fft_spectrum (zero_frame 1 5) (range_window (settled_8 2)) = Inl InvalidFrameShape
   \<and> presence exact checked_fft_spectrum (settled_8 2) (zero_frame 2 3)
       = presence exact checked_fft_spectrum (settled_8 2) (zero_frame 1 5)
   \<and> presence exact checked_fft_spectrum (settled_8 2) (zero_frame 2 3)
       = (settled_8 2, Inl InvalidFrameShape)
   \<and> snd (presence exact checked_fft_spectrum (settled_8 2) (zero_frame 2 3))
       = Inl InvalidFrameShape"
proof -
  have run: "settled_8 2
     = run_frames exact checked_fft_spectrum (new_detector exact 8 2 (bh_window 8)) [zero_frame 2 8]"
    by (rule settled_8_run) (simp_all add: checked_fft_spectrum_zero)
  have avg: "slow_avg (settled_8 2) = Some (replicate 8 0)"
    by (simp add: settled_8_def)
  have h1: "checked_fft_spectrum (zero_frame 2 3) (range_window (settled_8 2))
              = Inl InvalidFrameShape"
    by (simp add: checked_fft_spectrum_def zero_frame_def settled_8_def)
  have h2: "checked_fft_spectrum (zero_frame 1 5) (range_window (settled_8 2))
              = Inl InvalidFrameShape"
    by (simp add: checked_fft_spectrum_def zero_frame_def settled_8_def)
  note inst = frame_shape_is_not_checked
         [where fft = checked_fft_spectrum and mat = "zero_frame 2 3" and mat' = "zero_frame 1 5"
            and d = "settled_8 2" and e = InvalidFrameShape and ar = exact]
  have same: "presence exact checked_fft_spectrum (settled_8 2) (zero_frame 2 3)
       = presence exact checked_fft_spectrum (settled_8 2) (zero_frame 1 5)"
    using inst h1 h2 by simp
  have fail: "presence exact checked_fft_spectrum (settled_8 2) (zero_frame 2 3)
       = (settled_8 2, Inl InvalidFrameShape)"
    using inst h1 by blast
  then have "snd (presence exact checked_fft_spectrum (settled_8 2) (zero_frame 2 3))
       = Inl InvalidFrameShape"
    by simp
  with run avg h1 h2 same fail show ?thesis by blast
qed

subsection \<open>Construction\<close>

text \<open>
  Claim C2 as stated fails: a chirp count of zero is accepted, and the detector is created.
\<close>

theorem init_zero_chirps_counterexample:
  "PresenceAntiPeekingAlgo_init exact blackmanharris_spec blackmanharris_spec 8 0
     = Inr (new_detector exact 8 0 (bh_window 8))"
  using init_8 [of 0] by simp

text \<open>
  Claim C2, as the code has it: the constructor validates neither argument and raises no error
  of its own. With the library's Blackman-Harris window, construction succeeds for every
  \<^verbatim>\<open>num_samples_per_chirp\<close> that is not negative, so for every positive integer, and for every
  integer \<^verbatim>\<open>num_chirps_per_frame\<close> whatsoever, zero and negative values included; it returns
  a detector holding both arguments as given, a window of \<^verbatim>\<open>num_samples_per_chirp\<close>
  coefficients, both flags false and no average yet. With any library functions, construction
  either returns the detector or fails with the error of a window call. The chirp count is
  never examined: another chirp count gives the same outcome, and the same detector but for
  that attribute.
\<close>

theorem init_validates_nothing:
  "(0 \<le> n \<longrightarrow>
      (\<exists>d. PresenceAntiPeekingAlgo_init ar blackmanharris_spec blackmanharris_spec n c = Inr d
          \<and> d = new_detector ar n c (bh_window (nat n))
          \<and> num_samples_per_chirp d = n \<and> num_chirps_per_frame d = c
          \<and> length (range_window d) = nat n
          \<and> first_run d \<and> \<not> presence_status d \<and> \<not> peeking_status d
          \<and> slow_avg d = None \<and> fast_avg d = None \<and> slow_peek_avg d = None))
   \<and> ((\<exists>w. PresenceAntiPeekingAlgo_init ar blackmanharris windows_blackmanharris n c = Inr (new_detector ar n c w))
        \<or> (\<exists>e. PresenceAntiPeekingAlgo_init ar blackmanharris windows_blackmanharris n c = Inl e
                \<and> (blackmanharris n = Inl e \<or> windows_blackmanharris n = Inl e)))
   \<and> PresenceAntiPeekingAlgo_init ar blackmanharris windows_blackmanharris n c'
       = map_sum id (\<lambda>d. d\<lparr>num_chirps_per_frame := c'\<rparr>)
           (PresenceAntiPeekingAlgo_init ar blackmanharris windows_blackmanharris n c)"
proof (intro conjI impI)
  assume "0 \<le> n"
  then show "\<exists>d. PresenceAntiPeekingAlgo_init ar blackmanharris_spec blackmanharris_spec n c = Inr d
          \<and> d = new_detector ar n c (bh_window (nat n))
          \<and> num_samples_per_chirp d = n \<and> num_chirps_per_frame d = c
          \<and> length (range_window d) = nat n
          \<and> first_run d \<and> \<not> presence_status d \<and> \<not> peeking_status d
          \<and> slow_avg d = None \<and> fast_avg d = None \<and> slow_peek_avg d = None"
    by (simp add: init_spec)
next
  show "(\<exists>w. PresenceAntiPeekingAlgo_init ar blackmanharris windows_blackmanharris n c = Inr (new_detector ar n c w))
        \<or> (\<exists>e. PresenceAntiPeekingAlgo_init ar blackmanharris windows_blackmanharris n c = Inl e
                \<and> (blackmanharris n = Inl e \<or> windows_blackmanharris n = Inl e))"
  proof (cases "PresenceAntiPeekingAlgo_init ar blackmanharris windows_blackmanharris n c")
    case (Inl e)
    from init_failure [OF this] Inl show ?thesis by auto
  next
    case (Inr d)
    then show ?thesis
      by (auto simp: PresenceAntiPeekingAlgo_init_def split: sum.splits error.splits)
  qed
next
  show "PresenceAntiPeekingAlgo_init ar blackmanharris windows_blackmanharris n c'
       = map_sum id (\<lambda>d. d\<lparr>num_chirps_per_frame := c'\<rparr>)
           (PresenceAntiPeekingAlgo_init ar blackmanharris windows_blackmanharris n c)"
    by (simp add: PresenceAntiPeekingAlgo_init_def new_detector_def
             split: sum.splits error.splits)
qed

theorem init_validates_nothing_witness:
  "(0::int) \<le> 256
   \<and> PresenceAntiPeekingAlgo_init exact blackmanharris_spec blackmanharris_spec 256 (- 3)
       = Inr (new_detector exact 256 (- 3) (bh_window 256))
   \<and> num_chirps_per_frame (new_detector exact 256 (- 3) (bh_window 256)) = - 3
   \<and> length (range_window (new_detector exact 256 (- 3) (bh_window 256))) = 256
   \<and> first_run (new_detector exact 256 (- 3) (bh_window 256))
   \<and> PresenceAntiPeekingAlgo_init exact blackmanharris_spec blackmanharris_spec 256 32
       = Inr ((new_detector exact 256 (- 3) (bh_window 256))\<lparr>num_chirps_per_frame := 32\<rparr>)"
proof -
  note inst = init_validates_nothing
         [where n = 256 and c = "- 3" and c' = 32 and ar = exact
            and blackmanharris = blackmanharris_spec and windows_blackmanharris = blackmanharris_spec]
  have n: "(0::int) \<le> 256" by simp
  from inst n
  have 1: "PresenceAntiPeekingAlgo_init exact blackmanharris_spec blackmanharris_spec 256 (- 3)
       = Inr (new_detector exact 256 (- 3) (bh_window 256))"
    and 2: "num_chirps_per_frame (new_detector exact 256 (- 3) (bh_window 256)) = - 3"
    and 3: "length (range_window (new_detector exact 256 (- 3) (bh_window 256))) = 256"
    and 4: "first_run (new_detector exact 256 (- 3) (bh_window 256))"
    by simp_all
  from inst
  have "PresenceAntiPeekingAlgo_init exact blackmanharris_spec blackmanharris_spec 256 32
       = map_sum id (\<lambda>d. d\<lparr>num_chirps_per_frame := 32\<rparr>)
           (PresenceAntiPeekingAlgo_init exact blackmanharris_spec blackmanharris_spec 256 (- 3))"
    by (rule conjunct2 [THEN conjunct2])
  with 1 have 5: "PresenceAntiPeekingAlgo_init exact blackmanharris_spec blackmanharris_spec 256 32
       = Inr ((new_detector exact 256 (- 3) (bh_window 256))\<lparr>num_chirps_per_frame := 32\<rparr>)"
    by simp
  from n 1 2 3 4 5 show ?thesis by blast
qed

subsection \<open>The averages\<close>

text \<open>
  Claim C3: in a call after the first frame that returns, the fast average is updated once,
  in the presence step, from its value of before the call and with the fixed coefficient 0.6:
  the presence step (lines 78 to 87) ends with that new value stored, and thresholds its own
  differential, the new fast average minus the new slow average, over the detect window; the
  peeking step (lines 90 to 98) leaves the fast average as the presence step stored it, and
  its differential is that same new fast average minus the new slow peek average, bin by bin,
  thresholded over the peek window.
\<close>

theorem fast_avg_updated_once:
  assumes init: "PresenceAntiPeekingAlgo_init ar w1 w2 n c = Inr d0"
    and chirps: "c \<noteq> 0"
    and run: "d = run_frames ar fft d0 mats"
    and later: "\<not> first_run d"
    and ok: "presence ar fft d mat = (d', Inr (p, q))"
  shows "\<exists>rf fn old f s sp d2 data data_peek m mp.
           fft mat (range_window d) = Inr rf \<and> fft_norm_of ar d rf = Inr fn
         \<and> fast_avg d = Some old
         \<and> ema ar (Some old) fn (rnd ar (6 / 10)) = Inr f
         \<and> (length old = length fn \<longrightarrow>
              f = map2 (\<lambda>a x. rnd ar (rnd ar (a * rnd ar (1 - rnd ar (6 / 10)))
                                      + rnd ar (x * rnd ar (6 / 10)))) old fn)
         \<and> presence_sensing ar d fn = (d2, Inr ())
         \<and> fast_avg d2 = Some f \<and> slow_avg d2 = Some s
         \<and> np_sub ar f s = Inr data
         \<and> (length f = length s \<longrightarrow> data = map2 (\<lambda>a b. rnd ar (a - b)) f s)
         \<and> is_max_over_bins data (n div 8) (n div 2) m
         \<and> presence_status d2 = (rnd ar (7 / 10000) < m) \<and> p = presence_status d2
         \<and> peeking_sensing ar d2 fn = (d', Inr ())
         \<and> fast_avg d' = Some f \<and> slow_peek_avg d' = Some sp
         \<and> np_sub ar f sp = Inr data_peek
         \<and> (length f = length sp \<longrightarrow> data_peek = map2 (\<lambda>a b. rnd ar (a - b)) f sp)
         \<and> is_max_over_bins data_peek (n div 2) n mp
         \<and> q = (rnd ar (6 / 10000) < mp)"
proof -
  note cs = constructed_constants [OF init run]
  from presence_success [OF ok] obtain rf fn s f m sp mp d2 where
    rf: "fft mat (range_window d) = Inr rf" and fn: "fft_norm_of ar d rf = Inr fn"
    and f: "ema ar (fast_avg (initialize_averages d fn)) fn (alpha_fast d) = Inr f"
    and m: "window_max ar (Some f) (Some s) (detect_start_sample d) (detect_end_sample d) = Inr m"
    and mp: "window_max ar (Some f) (Some sp) (peek_start_sample d) (peek_end_sample d) = Inr mp"
    and ps: "presence_sensing ar (initialize_averages d fn) fn = (d2, Inr ())"
    and d2: "d2 = (initialize_averages d fn)
                   \<lparr>slow_avg := Some s, fast_avg := Some f,
                    presence_status := (threshold_presence d < m)\<rparr>"
    and pk: "peeking_sensing ar d2 fn = (d', Inr ())"
    and d': "d' = (initialize_averages d fn)
                   \<lparr>slow_avg := Some s, fast_avg := Some f,
                    presence_status := (threshold_presence d < m),
                    slow_peek_avg := Some sp,
                    peeking_status := (threshold_peeking d < mp)\<rparr>"
    and p: "p = (threshold_presence d < m)" and q: "q = (threshold_peeking d < mp)"
    by blast
  have same: "initialize_averages d fn = d"
    using later by (simp add: initialize_averages_def)
  have f1: "ema ar (fast_avg d) fn (rnd ar (6 / 10)) = Inr f"
    using f unfolding same by (simp only: cs)
  then obtain old where old: "fast_avg d = Some old"
    by (cases "fast_avg d") (simp_all add: ema_def)
  have f2: "ema ar (Some old) fn (rnd ar (6 / 10)) = Inr f"
    using f1 old by simp
  have f3: "f = map2 (\<lambda>a x. rnd ar (rnd ar (a * rnd ar (1 - rnd ar (6 / 10)))
                                      + rnd ar (x * rnd ar (6 / 10)))) old fn"
    if "length old = length fn"
  proof -
    have "ema_bin ar (rnd ar (6 / 10))
            = (\<lambda>a x. rnd ar (rnd ar (a * rnd ar (1 - rnd ar (6 / 10)))
                                      + rnd ar (x * rnd ar (6 / 10))))"
      by (intro ext) (simp add: ema_bin_def)
    with ema_same_length [OF that, of ar "rnd ar (6 / 10)"] f2 show ?thesis by simp
  qed
  have diff: "diff_bin ar = (\<lambda>a b. rnd ar (a - b))"
    by (intro ext) (simp add: diff_bin_def)
  have m2: "window_max ar (Some f) (Some s) (n div 8) (n div 2) = Inr m"
    using m by (simp only: cs)
  have mp2: "window_max ar (Some f) (Some sp) (n div 2) n = Inr mp"
    using mp by (simp only: cs)
  from window_max_bins [OF m2] obtain data where
    n: "0 \<le> n" and data: "np_sub ar f s = Inr data"
    and bins: "is_max_over_bins data (n div 8) (n div 2) m"
    by blast
  from window_max_bins_peek [OF mp2 n] obtain data_peek where
    data_peek: "np_sub ar f sp = Inr data_peek"
    and bins_peek: "is_max_over_bins data_peek (n div 2) n mp"
    by blast
  have data2: "data = map2 (\<lambda>a b. rnd ar (a - b)) f s" if "length f = length s"
    using np_sub_same_length [OF that, of ar] data diff by simp
  have data_peek2: "data_peek = map2 (\<lambda>a b. rnd ar (a - b)) f sp" if "length f = length sp"
    using np_sub_same_length [OF that, of ar] data_peek diff by simp
  have ps2: "presence_sensing ar d fn = (d2, Inr ())"
    using ps unfolding same .
  have st2: "fast_avg d2 = Some f" "slow_avg d2 = Some s"
    "presence_status d2 = (threshold_presence d < m)"
    by (simp_all add: d2)
  have st2': "presence_status d2 = (rnd ar (7 / 10000) < m)"
    using st2(3) by (simp only: cs)
  have p2: "p = presence_status d2"
    using p st2(3) by simp
  have st': "fast_avg d' = Some f" "slow_peek_avg d' = Some sp"
    by (simp_all add: d')
  have q2: "q = (rnd ar (6 / 10000) < mp)" using q by (simp only: cs)
  from rf fn old f2 f3 ps2 st2(1,2) data data2 bins st2' p2 pk st' data_peek data_peek2
    bins_peek q2
  show ?thesis by blast
qed

theorem fast_avg_updated_once_witness:
  "PresenceAntiPeekingAlgo_init exact blackmanharris_spec blackmanharris_spec 2 1
     = Inr (new_detector exact 2 1 (bh_window 2))
   \<and> (1::int) \<noteq> 0
   \<and> settled_2_1
       = run_frames exact samples_as_spectrum (new_detector exact 2 1 (bh_window 2))
           [zero_frame 1 2]
   \<and> \<not> first_run settled_2_1
   \<and> presence exact samples_as_spectrum settled_2_1 both_frame = (both_2_1, Inr (True, True))
   \<and> fast_avg settled_2_1 = Some [0, 0]
   \<and> fft_norm_of exact settled_2_1 \<lparr>ncols = 2, rows = [[1, 1]]\<rparr> = Inr [1, 1]
   \<and> ema exact (Some [0, 0]) [1, 1] (6 / 10) = Inr [3 / 5, 3 / 5]
   \<and> fast_avg both_2_1 = Some [3 / 5, 3 / 5]
   \<and> slow_peek_avg both_2_1 = Some [1 / 20, 1 / 20]
   \<and> np_sub exact [3 / 5, 3 / 5] [1 / 20, 1 / 20] = Inr [11 / 20, 11 / 20]
   \<and> (\<exists>d2 mp. presence_sensing exact settled_2_1 [1, 1] = (d2, Inr ())
            \<and> fast_avg d2 = Some [3 / 5, 3 / 5]
            \<and> peeking_sensing exact d2 [1, 1] = (both_2_1, Inr ())
            \<and> is_max_over_bins [11 / 20, 11 / 20] 1 2 mp
            \<and> True = (6 / 10000 < mp))"
proof -
  have later: "\<not> first_run settled_2_1"
    by (simp add: settled_2_1_def)
  have chirps: "(1::int) \<noteq> 0" by simp
  have helper: "samples_as_spectrum both_frame (range_window settled_2_1)
                  = Inr \<lparr>ncols = 2, rows = [[1, 1]]\<rparr>"
    by (simp add: samples_as_spectrum_def both_frame_def settled_2_1_def)
  have norm: "fft_norm_of exact settled_2_1 \<lparr>ncols = 2, rows = [[1, 1]]\<rparr> = Inr [1, 1]"
    by (simp add: fft_norm_of_def abs_array2_def sum_axis0_def np_divide_def settled_2_1_def
                  fdiv_def)
  have old: "fast_avg settled_2_1 = Some [0, 0]"
    by (simp add: settled_2_1_def)
  have ema: "ema exact (Some [0, 0]) [1, 1] (6 / 10) = Inr [3 / 5, 3 / 5]"
    by (simp add: ema_def scale_def np_add_def np_binop_def fadd_def fsub_def fmul_def)
  have new: "fast_avg both_2_1 = Some [3 / 5, 3 / 5]"
    "slow_peek_avg both_2_1 = Some [1 / 20, 1 / 20]"
    by (simp_all add: both_2_1_def)
  have sub: "np_sub exact [3 / 5, 3 / 5] [1 / 20, 1 / 20] = Inr [11 / 20, 11 / 20]"
    by (simp add: np_sub_def np_binop_def fsub_def)
  from fast_avg_updated_once [OF init_2_1 chirps settled_2_1_run later both_on_settled]
  obtain rf fn old' f sp d2 data_peek mp where
    "samples_as_spectrum both_frame (range_window settled_2_1) = Inr rf"
    "fft_norm_of exact settled_2_1 rf = Inr fn"
    "fast_avg settled_2_1 = Some old'"
    "ema exact (Some old') fn (6 / 10) = Inr f"
    "presence_sensing exact settled_2_1 fn = (d2, Inr ())"
    "fast_avg d2 = Some f"
    "peeking_sensing exact d2 fn = (both_2_1, Inr ())"
    "fast_avg both_2_1 = Some f" "slow_peek_avg both_2_1 = Some sp"
    "np_sub exact f sp = Inr data_peek"
    "is_max_over_bins data_peek 1 2 mp"
    "True = (6 / 10000 < mp)"
    by auto
  with helper norm old ema new sub
  have "presence_sensing exact settled_2_1 [1, 1] = (d2, Inr ())
            \<and> fast_avg d2 = Some [3 / 5, 3 / 5]
            \<and> peeking_sensing exact d2 [1, 1] = (both_2_1, Inr ())
            \<and> is_max_over_bins [11 / 20, 11 / 20] 1 2 mp
            \<and> True = (6 / 10000 < mp)"
    by simp
  then have "\<exists>d2 mp. presence_sensing exact settled_2_1 [1, 1] = (d2, Inr ())
            \<and> fast_avg d2 = Some [3 / 5, 3 / 5]
            \<and> peeking_sensing exact d2 [1, 1] = (both_2_1, Inr ())
            \<and> is_max_over_bins [11 / 20, 11 / 20] 1 2 mp
            \<and> True = (6 / 10000 < mp)"
    by blast
  with init_2_1 chirps settled_2_1_run later both_on_settled old norm ema new sub
  show ?thesis by (intro conjI)
qed

subsection \<open>The adaptive coefficients\<close>

text \<open>
  Claim C4: in a call that returns, \<^verbatim>\<open>slow_avg\<close> is updated with 0.05 when
  \<^verbatim>\<open>presence_status\<close> was false before the call and with 0.001 when it was true, and
  \<^verbatim>\<open>slow_peek_avg\<close> likewise by \<^verbatim>\<open>peeking_status\<close>; the update of an average of the
  spectrum's length is \<open>avg * (1 - coef) + fft_norm * coef\<close> in every bin, each operation
  rounded.
\<close>

theorem adaptive_coefficients:
  assumes init: "PresenceAntiPeekingAlgo_init ar w1 w2 n c = Inr d0"
    and chirps: "c \<noteq> 0"
    and run: "d = run_frames ar fft d0 mats"
    and helper: "fft mat (range_window d) = Inr rf"
    and ok: "presence ar fft d mat = (d', Inr (p, q))"
  shows "(\<exists>fn s sp.
            fft_norm_of ar d rf = Inr fn
          \<and> ema ar (slow_avg (initialize_averages d fn)) fn
                (if presence_status d then rnd ar (1 / 1000) else rnd ar (5 / 100)) = Inr s
          \<and> slow_avg d' = Some s
          \<and> ema ar (slow_peek_avg (initialize_averages d fn)) fn
                (if peeking_status d then rnd ar (1 / 1000) else rnd ar (5 / 100)) = Inr sp
          \<and> slow_peek_avg d' = Some sp)
       \<and> (\<forall>avg x coef. length avg = length x \<longrightarrow>
             ema ar (Some avg) x coef
               = Inr (map2 (\<lambda>a y. rnd ar (rnd ar (a * rnd ar (1 - coef)) + rnd ar (y * coef)))
                           avg x))"
proof -
  from presence_success [OF ok] obtain rf' fn s f m sp mp where
    rf': "fft mat (range_window d) = Inr rf'" and fn': "fft_norm_of ar d rf' = Inr fn"
    and s: "ema ar (slow_avg (initialize_averages d fn)) fn
          (if presence_status d then alpha_slow d else alpha_med d) = Inr s"
    and sp: "ema ar (slow_peek_avg (initialize_averages d fn)) fn
          (if peeking_status d then alpha_slow d else alpha_med d) = Inr sp"
    and d': "d' = (initialize_averages d fn)
                   \<lparr>slow_avg := Some s, fast_avg := Some f,
                    presence_status := (threshold_presence d < m),
                    slow_peek_avg := Some sp,
                    peeking_status := (threshold_peeking d < mp)\<rparr>"
    by blast
  have norm: "fft_norm_of ar d rf = Inr fn" using rf' fn' helper by simp
  note coefs = constructed_constants(9,10) [OF init run]
  have s2: "ema ar (slow_avg (initialize_averages d fn)) fn
              (if presence_status d then rnd ar (1 / 1000) else rnd ar (5 / 100)) = Inr s"
    using s by (simp only: coefs)
  have sp2: "ema ar (slow_peek_avg (initialize_averages d fn)) fn
              (if peeking_status d then rnd ar (1 / 1000) else rnd ar (5 / 100)) = Inr sp"
    using sp by (simp only: coefs)
  have avgs: "slow_avg d' = Some s" "slow_peek_avg d' = Some sp"
    by (simp_all add: d')
  have formula: "ema ar (Some avg) x coef
               = Inr (map2 (\<lambda>a y. rnd ar (rnd ar (a * rnd ar (1 - coef)) + rnd ar (y * coef)))
                           avg x)"
    if "length avg = length x" for avg x coef
  proof -
    have "ema_bin ar coef = (\<lambda>a y. rnd ar (rnd ar (a * rnd ar (1 - coef)) + rnd ar (y * coef)))"
      by (intro ext) (simp add: ema_bin_def)
    with ema_same_length [OF that, of ar coef] show ?thesis by simp
  qed
  from norm s2 sp2 avgs formula show ?thesis by blast
qed

theorem adaptive_coefficients_witness:
  "PresenceAntiPeekingAlgo_init exact blackmanharris_spec blackmanharris_spec 2 2
     = Inr (new_detector exact 2 2 (bh_window 2))
   \<and> (2::int) \<noteq> 0
   \<and> occupied_2_2
       = run_frames exact samples_as_spectrum (new_detector exact 2 2 (bh_window 2))
           [zero_frame 2 2, spike_frame]
   \<and> samples_as_spectrum spike_frame (range_window occupied_2_2)
       = Inr \<lparr>ncols = 2, rows = [[1, 0], [1, 0]]\<rparr>
   \<and> fft_norm_of exact occupied_2_2 \<lparr>ncols = 2, rows = [[1, 0], [1, 0]]\<rparr> = Inr [1, 0]
   \<and> presence exact samples_as_spectrum occupied_2_2 spike_frame
       = (occupied_twice_2_2, Inr (True, False))
   \<and> presence_status occupied_2_2 \<and> \<not> peeking_status occupied_2_2
   \<and> ema exact (slow_avg occupied_2_2) [1, 0] (1 / 1000) = Inr [1019 / 20000, 0]
   \<and> slow_avg occupied_twice_2_2 = Some [1019 / 20000, 0]
   \<and> ema exact (slow_peek_avg occupied_2_2) [1, 0] (5 / 100) = Inr [39 / 400, 0]
   \<and> slow_peek_avg occupied_twice_2_2 = Some [39 / 400, 0]"
proof -
  have helper: "samples_as_spectrum spike_frame (range_window occupied_2_2)
                  = Inr \<lparr>ncols = 2, rows = [[1, 0], [1, 0]]\<rparr>"
    by (simp add: samples_as_spectrum_def spike_frame_def occupied_2_2_def)
  have norm: "fft_norm_of exact occupied_2_2 \<lparr>ncols = 2, rows = [[1, 0], [1, 0]]\<rparr> = Inr [1, 0]"
    by (simp add: fft_norm_of_def abs_array2_def sum_axis0_def np_divide_def occupied_2_2_def
                  fadd_def fdiv_def)
  have st: "presence_status occupied_2_2" "\<not> peeking_status occupied_2_2"
    "\<not> first_run occupied_2_2"
    by (simp_all add: occupied_2_2_def)
  have same: "initialize_averages occupied_2_2 [1, 0] = occupied_2_2"
    using st by (simp add: initialize_averages_def)
  have chirps: "(2::int) \<noteq> 0" by simp
  from adaptive_coefficients [OF init_2_2 chirps occupied_2_2_run helper spike_on_occupied]
  obtain fn s sp where
    "fft_norm_of exact occupied_2_2 \<lparr>ncols = 2, rows = [[1, 0], [1, 0]]\<rparr> = Inr fn"
    "ema exact (slow_avg (initialize_averages occupied_2_2 fn)) fn
       (if presence_status occupied_2_2 then rnd exact (1 / 1000) else rnd exact (5 / 100))
       = Inr s"
    "slow_avg occupied_twice_2_2 = Some s"
    "ema exact (slow_peek_avg (initialize_averages occupied_2_2 fn)) fn
       (if peeking_status occupied_2_2 then rnd exact (1 / 1000) else rnd exact (5 / 100))
       = Inr sp"
    "slow_peek_avg occupied_twice_2_2 = Some sp"
    by blast
  with norm same st have
    "ema exact (slow_avg occupied_2_2) [1, 0] (1 / 1000) = Inr s"
    "slow_avg occupied_twice_2_2 = Some s"
    "ema exact (slow_peek_avg occupied_2_2) [1, 0] (5 / 100) = Inr sp"
    "slow_peek_avg occupied_twice_2_2 = Some sp"
    by simp_all
  moreover have "slow_avg occupied_twice_2_2 = Some [1019 / 20000, 0]"
    "slow_peek_avg occupied_twice_2_2 = Some [39 / 400, 0]"
    by (simp_all add: occupied_twice_2_2_def)
  ultimately have
    "ema exact (slow_avg occupied_2_2) [1, 0] (1 / 1000) = Inr [1019 / 20000, 0]"
    "slow_avg occupied_twice_2_2 = Some [1019 / 20000, 0]"
    "ema exact (slow_peek_avg occupied_2_2) [1, 0] (5 / 100) = Inr [39 / 400, 0]"
    "slow_peek_avg occupied_twice_2_2 = Some [39 / 400, 0]"
    by simp_all
  then show ?thesis
    by (intro conjI init_2_2 chirps occupied_2_2_run helper norm spike_on_occupied st)
qed

subsection \<open>The two windows\<close>

text \<open>
  Claim C5: a detector built for \<open>n\<close> samples per chirp keeps the detect window
  \<open>[n div 8, n div 2)\<close> and the peek window \<open>[n div 2, n)\<close> for its whole life, which for
  \<open>n = 256\<close> are \<open>[32, 128)\<close> and \<open>[128, 256)\<close>; in a call that returns, the presence flag
  compares the largest differential among the bins of the detect window with its threshold, and
  the peeking flag the largest among the bins of the peek window.
\<close>

theorem windows_fixed_at_construction:
  assumes init: "PresenceAntiPeekingAlgo_init ar w1 w2 n c = Inr d0"
    and chirps: "c \<noteq> 0"
    and run: "d = run_frames ar fft d0 mats"
    and ok: "presence ar fft d mat = (d', Inr (p, q))"
  shows "detect_start_sample d = n div 8 \<and> detect_end_sample d = n div 2
       \<and> peek_start_sample d = n div 2 \<and> peek_end_sample d = n
       \<and> (n = 256 \<longrightarrow> detect_start_sample d = 32 \<and> detect_end_sample d = 128
                      \<and> peek_start_sample d = 128 \<and> peek_end_sample d = 256)
       \<and> (\<exists>f s sp data data_peek m mp.
             fast_avg d' = Some f \<and> slow_avg d' = Some s \<and> slow_peek_avg d' = Some sp
           \<and> np_sub ar f s = Inr data \<and> np_sub ar f sp = Inr data_peek
           \<and> is_max_over_bins data (n div 8) (n div 2) m
           \<and> is_max_over_bins data_peek (n div 2) n mp
           \<and> p = (rnd ar (7 / 10000) < m) \<and> q = (rnd ar (6 / 10000) < mp))"
proof -
  note cs = constructed_constants [OF init run]
  from presence_success [OF ok] obtain fn s f m sp mp where
    m: "window_max ar (Some f) (Some s) (detect_start_sample d) (detect_end_sample d) = Inr m"
    and mp: "window_max ar (Some f) (Some sp) (peek_start_sample d) (peek_end_sample d) = Inr mp"
    and d': "d' = (initialize_averages d fn)
                   \<lparr>slow_avg := Some s, fast_avg := Some f,
                    presence_status := (threshold_presence d < m),
                    slow_peek_avg := Some sp,
                    peeking_status := (threshold_peeking d < mp)\<rparr>"
    and p: "p = (threshold_presence d < m)" and q: "q = (threshold_peeking d < mp)"
    by blast
  have m2: "window_max ar (Some f) (Some s) (n div 8) (n div 2) = Inr m"
    using m by (simp only: cs)
  have mp2: "window_max ar (Some f) (Some sp) (n div 2) n = Inr mp"
    using mp by (simp only: cs)
  from window_max_bins [OF m2] obtain data where
    n: "0 \<le> n" and data: "np_sub ar f s = Inr data"
    and bins: "is_max_over_bins data (n div 8) (n div 2) m"
    by blast
  from window_max_bins_peek [OF mp2 n] obtain data_peek where
    data_peek: "np_sub ar f sp = Inr data_peek"
    and bins_peek: "is_max_over_bins data_peek (n div 2) n mp"
    by blast
  have avgs: "fast_avg d' = Some f" "slow_avg d' = Some s" "slow_peek_avg d' = Some sp"
    by (simp_all add: d')
  have p2: "p = (rnd ar (7 / 10000) < m)" using p by (simp only: cs)
  have q2: "q = (rnd ar (6 / 10000) < mp)" using q by (simp only: cs)
  have win: "detect_start_sample d = n div 8" "detect_end_sample d = n div 2"
    "peek_start_sample d = n div 2" "peek_end_sample d = n"
    by (fact cs)+
  have "n = 256 \<longrightarrow> detect_start_sample d = 32 \<and> detect_end_sample d = 128
                      \<and> peek_start_sample d = 128 \<and> peek_end_sample d = 256"
    using win by simp
  moreover have "\<exists>f s sp data data_peek m mp.
             fast_avg d' = Some f \<and> slow_avg d' = Some s \<and> slow_peek_avg d' = Some sp
           \<and> np_sub ar f s = Inr data \<and> np_sub ar f sp = Inr data_peek
           \<and> is_max_over_bins data (n div 8) (n div 2) m
           \<and> is_max_over_bins data_peek (n div 2) n mp
           \<and> p = (rnd ar (7 / 10000) < m) \<and> q = (rnd ar (6 / 10000) < mp)"
    using avgs data data_peek bins bins_peek p2 q2 by blast
  ultimately show ?thesis using win by blast
qed

theorem windows_fixed_at_construction_witness:
  "PresenceAntiPeekingAlgo_init exact blackmanharris_spec blackmanharris_spec 256 32
     = Inr (new_detector exact 256 32 (bh_window 256))
   \<and> (32::int) \<noteq> 0
   \<and> new_detector exact 256 32 (bh_window 256)
       = run_frames exact fft_spectrum_spec (new_detector exact 256 32 (bh_window 256)) []
   \<and> presence exact fft_spectrum_spec (new_detector exact 256 32 (bh_window 256)) (zero_frame 32 256)
       = ((new_detector exact 256 32 (bh_window 256))
            \<lparr>slow_avg := Some (replicate 256 0), fast_avg := Some (replicate 256 0),
             slow_peek_avg := Some (replicate 256 0), first_run := False\<rparr>,
          Inr (False, False))
   \<and> detect_start_sample (new_detector exact 256 32 (bh_window 256)) = 32
   \<and> detect_end_sample (new_detector exact 256 32 (bh_window 256)) = 128
   \<and> peek_start_sample (new_detector exact 256 32 (bh_window 256)) = 128
   \<and> peek_end_sample (new_detector exact 256 32 (bh_window 256)) = 256
   \<and> (\<exists>data data_peek m mp.
         np_sub exact (replicate 256 0) (replicate 256 0) = Inr data
       \<and> np_sub exact (replicate 256 0) (replicate 256 0) = Inr data_peek
       \<and> is_max_over_bins data 32 128 m \<and> is_max_over_bins data_peek 128 256 mp
       \<and> False = (7 / 10000 < m) \<and> False = (6 / 10000 < mp))"
proof -
  let ?d = "new_detector exact 256 32 (bh_window 256)"
  have init: "PresenceAntiPeekingAlgo_init exact blackmanharris_spec blackmanharris_spec 256 32
                = Inr ?d"
    by (simp add: init_spec)
  have run: "?d = run_frames exact fft_spectrum_spec ?d []"
    by simp
  have ok: "presence exact fft_spectrum_spec ?d (zero_frame 32 256)
       = (?d\<lparr>slow_avg := Some (replicate 256 0), fast_avg := Some (replicate 256 0),
             slow_peek_avg := Some (replicate 256 0), first_run := False\<rparr>,
          Inr (False, False))"
    by (subst zero_frame_on_fresh [where N = 256]) (simp_all add: fft_spectrum_spec_zero)
  have chirps: "(32::int) \<noteq> 0" by simp
  from windows_fixed_at_construction [OF init chirps run ok]
  have "detect_start_sample ?d = 32 \<and> detect_end_sample ?d = 128
      \<and> peek_start_sample ?d = 128 \<and> peek_end_sample ?d = 256"
    and "\<exists>data data_peek m mp.
         np_sub exact (replicate 256 0) (replicate 256 0) = Inr data
       \<and> np_sub exact (replicate 256 0) (replicate 256 0) = Inr data_peek
       \<and> is_max_over_bins data 32 128 m \<and> is_max_over_bins data_peek 128 256 mp
       \<and> False = (7 / 10000 < m) \<and> False = (6 / 10000 < mp)"
    by simp_all
  with init run ok show ?thesis by simp
qed

subsection \<open>One sample per chirp\<close>

text \<open>
  Claim C9: a detector built for one sample per chirp has the empty detect window
  \<open>[0, 0)\<close>; the maximum over it raises \<^verbatim>\<open>ValueError\<close> whatever the differential is, and
  every call of the update, at any time of the detector's life, ends with an exception.
\<close>

theorem single_sample_update_always_raises:
  assumes init: "PresenceAntiPeekingAlgo_init ar w1 w2 1 c = Inr d0"
    and run: "d = run_frames ar fft d0 mats"
  shows "detect_start_sample d = 0 \<and> detect_end_sample d = 0
       \<and> (\<forall>data. np_max (py_slice data (detect_start_sample d) (detect_end_sample d))
                   = Inl ValueError)
       \<and> (\<exists>d' e. presence ar fft d mat = (d', Inl e))"
proof -
  have bounds: "detect_start_sample d = 0" "detect_end_sample d = 0"
    using constructed_constants(3,4) [OF init run] by simp_all
  have empty: "np_max (py_slice data 0 0) = Inl ValueError" for data :: "real list"
    by (simp add: py_slice_def)
  have "\<exists>d' e. presence ar fft d mat = (d', Inl e)"
  proof (cases "presence ar fft d mat")
    case (Pair d' r)
    show ?thesis
    proof (cases r)
      case (Inl e)
      with Pair show ?thesis by simp
    next
      case (Inr pq)
      obtain p q where "pq = (p, q)" by (cases pq)
      with Pair Inr have "presence ar fft d mat = (d', Inr (p, q))" by simp
      from presence_success [OF this] obtain s f m where
        "window_max ar (Some f) (Some s) (detect_start_sample d) (detect_end_sample d) = Inr m"
        by blast
      then have False
        using bounds empty by (simp add: window_max_def split: sum.splits)
      then show ?thesis ..
    qed
  qed
  with bounds empty show ?thesis by simp
qed

theorem single_sample_update_always_raises_witness:
  "PresenceAntiPeekingAlgo_init exact blackmanharris_spec blackmanharris_spec 1 32
     = Inr (new_detector exact 1 32 (bh_window 1))
   \<and> new_detector exact 1 32 (bh_window 1)
       = run_frames exact fft_spectrum_spec (new_detector exact 1 32 (bh_window 1)) []
   \<and> (detect_start_sample (new_detector exact 1 32 (bh_window 1)) = 0
       \<and> detect_end_sample (new_detector exact 1 32 (bh_window 1)) = 0
       \<and> (\<forall>data. np_max (py_slice data (detect_start_sample (new_detector exact 1 32 (bh_window 1)))
                                       (detect_end_sample (new_detector exact 1 32 (bh_window 1))))
                   = Inl ValueError)
       \<and> (\<exists>d' e. presence exact fft_spectrum_spec (new_detector exact 1 32 (bh_window 1))
                     (zero_frame 32 1)
                   = (d', Inl e)))"
proof -
  have init: "PresenceAntiPeekingAlgo_init exact blackmanharris_spec blackmanharris_spec 1 32
                = Inr (new_detector exact 1 32 (bh_window 1))"
    by (simp add: init_spec)
  have run: "new_detector exact 1 32 (bh_window 1)
               = run_frames exact fft_spectrum_spec (new_detector exact 1 32 (bh_window 1)) []"
    by simp
  show ?thesis
    by (intro conjI init run
          single_sample_update_always_raises [OF init run, of "zero_frame 32 1", THEN conjunct1]
          single_sample_update_always_raises [OF init run, of "zero_frame 32 1", THEN conjunct2,
            THEN conjunct1]
          single_sample_update_always_raises [OF init run, of "zero_frame 32 1", THEN conjunct2,
            THEN conjunct2])
qed

subsection \<open>Peeking does not depend on the presence flag\<close>

text \<open>
  Claim C10: two states that differ in \<^verbatim>\<open>presence_status\<close> only, given the same frame,
  end with the same \<^verbatim>\<open>slow_peek_avg\<close>, the same \<^verbatim>\<open>fast_avg\<close> and the same
  \<^verbatim>\<open>peeking_status\<close>, and they raise the same exception or return the same peeking value.
\<close>

theorem peeking_independent_of_presence_status:
  "slow_peek_avg (fst (presence ar fft (d\<lparr>presence_status := b\<rparr>) mat))
     = slow_peek_avg (fst (presence ar fft d mat))
   \<and> peeking_status (fst (presence ar fft (d\<lparr>presence_status := b\<rparr>) mat))
     = peeking_status (fst (presence ar fft d mat))
   \<and> fast_avg (fst (presence ar fft (d\<lparr>presence_status := b\<rparr>) mat))
     = fast_avg (fst (presence ar fft d mat))
   \<and> map_sum id snd (snd (presence ar fft (d\<lparr>presence_status := b\<rparr>) mat))
     = map_sum id snd (snd (presence ar fft d mat))"
proof (cases "fft mat (range_window d)")
  case (Inl e)
  then show ?thesis by (simp add: presence_def)
next
  case (Inr rf)
  have norm: "fft_norm_of ar (d\<lparr>presence_status := b\<rparr>) rf = fft_norm_of ar d rf"
    by (simp add: fft_norm_of_def)
  show ?thesis
  proof (cases "fft_norm_of ar d rf")
    case (Inl e)
    with Inr norm show ?thesis by (simp add: presence_def)
  next
    case fn: (Inr fn)
    have "presence ar fft d mat = sense ar d fn"
      "presence ar fft (d\<lparr>presence_status := b\<rparr>) mat = sense ar (d\<lparr>presence_status := b\<rparr>) fn"
      using Inr fn norm by (simp_all add: presence_def)
    then show ?thesis
      using sense_status_independent [where ar = ar and d = d and b = b and fn = fn] by simp
  qed
qed

end
